theory Spec2Isabelle
  imports Complex_Main "HOL-Library.Word" "HOL-Library.Multiset"
begin

section \<open>Data model of etlgo\<close>

text \<open>
  A \<open>time.Time\<close> is an instant with a location. The instant is the number of
  nanoseconds since Go's zero Time (January 1 of year 1, 00:00:00 UTC); \<open>a.Before(b)\<close>
  and \<open>a.After(b)\<close> compare instants and ignore the locations. The location is held by
  its offset east of UTC, in nanoseconds: 0 for UTC, which \<open>time.Parse\<close> gives to a text
  without a zone, the offset written in an RFC3339 text, and the offset of the local zone
  for \<open>time.Now()\<close>. The offset of a location is taken to be the same at every instant,
  so \<open>AddDate(0, 0, n)\<close> keeps the location and adds \<open>n\<close> days of 24 hours; a local zone
  that changes its offset during the year is outside the model.

  Go's \<open>int\<close> is the 64-bit signed integer of the usual targets: a \<open>64 word\<close> read with
  \<open>sint\<close>, whose addition wraps around.

  The type of the \<open>float64\<close> values is the type parameter \<open>'f\<close> of the records, and the
  arithmetic of \<open>float64\<close> is a parameter of the functions that compute with it (a record
  \<open>ops\<close> of the operations used: the zero value, \<open>+\<close>, \<open>/\<close>, \<open>>\<close> and the conversion
  \<open>float64(n)\<close>). Nothing is assumed of them, so what is proved holds for the rounding,
  the infinities and the NaN of the machine.

  The clock is a parameter: a function that calls \<open>time.Now()\<close> to stamp a record takes
  the value read as \<open>now\<close>, and \<open>GetByFilter\<close>, which reads the clock twice to bound its
  scan, takes the two readings. Logging is left out.

  Field names carry a prefix per struct (\<open>ad_\<close>, \<open>opp_\<close>, \<open>bm_\<close>, \<open>raw_\<close>, \<open>f_\<close>,
  \<open>resp_\<close>), because several structs of the source share their field names.
\<close>

record Time =
  instant :: int
  zoneOffset :: int

type_synonym go_int = "64 word"

definition zeroTime :: Time where
  \<comment> \<open>the zero value of \<open>time.Time\<close>\<close>
  "zeroTime = \<lparr>instant = 0, zoneOffset = 0\<rparr>"

definition After :: "Time \<Rightarrow> Time \<Rightarrow> bool" where
  \<comment> \<open>\<open>a.After(b)\<close>\<close>
  "After a b \<longleftrightarrow> instant b < instant a"

definition Before :: "Time \<Rightarrow> Time \<Rightarrow> bool" where
  \<comment> \<open>\<open>a.Before(b)\<close>\<close>
  "Before a b \<longleftrightarrow> instant a < instant b"

definition nsPerDay :: int where
  "nsPerDay = 86400000000000"

definition AddDate :: "Time \<Rightarrow> int \<Rightarrow> Time" where
  \<comment> \<open>\<open>t.AddDate(0, 0, days)\<close>\<close>
  "AddDate t days = t\<lparr>instant := instant t + days * nsPerDay\<rparr>"

definition dateKey :: "Time \<Rightarrow> int" where
  \<comment> \<open>\<open>t.Format("2006-01-02")\<close>: the calendar day of \<open>t\<close> in the location of \<open>t\<close>. The
      printed string is determined by the day and determines it, so the key is the
      number of the day.\<close>
  "dateKey t = (instant t + zoneOffset t) div nsPerDay"

record 'f floatOps =
  zero64 :: 'f
  add64 :: "'f \<Rightarrow> 'f \<Rightarrow> 'f"
  div64 :: "'f \<Rightarrow> 'f \<Rightarrow> 'f"
  gt64 :: "'f \<Rightarrow> 'f \<Rightarrow> bool"
  float64 :: "go_int \<Rightarrow> 'f"

record 'f AdPerformance =
  raw_Date :: string
  raw_CampaignID :: string
  raw_Channel :: string
  raw_Clicks :: go_int
  raw_Impressions :: go_int
  raw_Cost :: 'f
  raw_UTMCampaign :: string
  raw_UTMSource :: string
  raw_UTMMedium :: string

record 'f ProcessedAdData =
  ad_Date :: Time
  ad_CampaignID :: string
  ad_Channel :: string
  ad_Clicks :: go_int
  ad_Impressions :: go_int
  ad_Cost :: 'f
  ad_UTMCampaign :: string
  ad_UTMSource :: string
  ad_UTMMedium :: string
  ad_ProcessedAt :: Time

record UTMKey =
  Campaign :: string
  Source :: string
  Medium :: string

text \<open>\<open>OpportunityStage\<close> is a string type in the source, with four named constants.\<close>

type_synonym OpportunityStage = string

definition StageLead :: OpportunityStage where "StageLead = ''lead''"

definition StageOpportunity :: OpportunityStage where "StageOpportunity = ''opportunity''"

definition StageClosedWon :: OpportunityStage where "StageClosedWon = ''closed_won''"

definition StageClosedLost :: OpportunityStage where "StageClosedLost = ''closed_lost''"

record 'f ProcessedOpportunity =
  opp_OpportunityID :: string
  opp_ContactEmail :: string
  opp_Stage :: OpportunityStage
  opp_Amount :: 'f
  opp_CreatedAt :: Time
  opp_UTMCampaign :: string
  opp_UTMSource :: string
  opp_UTMMedium :: string
  opp_ProcessedAt :: Time

record 'f BusinessMetrics =
  bm_Date :: Time
  bm_Channel :: string
  bm_CampaignID :: string
  bm_UTMCampaign :: string
  bm_UTMSource :: string
  bm_UTMMedium :: string
  bm_Clicks :: go_int
  bm_Impressions :: go_int
  bm_Cost :: 'f
  bm_Leads :: go_int
  bm_Opportunities :: go_int
  bm_ClosedWon :: go_int
  bm_Revenue :: 'f
  bm_CPC :: 'f
  bm_CPA :: 'f
  bm_CVRLeadToOpp :: 'f
  bm_CVROppToWon :: 'f
  bm_ROAS :: 'f
  bm_CalculatedAt :: Time

record MetricsFilter =
  f_From :: "Time option"
  f_To :: "Time option"
  f_Channel :: string
  f_CampaignID :: string
  f_UTMCampaign :: string
  f_UTMSource :: string
  f_UTMMedium :: string
  f_Limit :: go_int
  f_Offset :: go_int

record 'f MetricsResponse =
  resp_Data :: "'f BusinessMetrics list"
  resp_Total :: int
  resp_Limit :: go_int
  resp_Offset :: go_int
  resp_HasMore :: bool

section \<open>Aggregation: \<open>calculateMetricForUTM\<close>\<close>

text \<open>The local variables of the first loop of \<open>calculateMetricForUTM\<close>.\<close>

record 'f adTotals =
  totalClicks :: go_int
  totalImpressions :: go_int
  totalCost :: 'f
  latestDate :: Time
  channel :: string
  campaignID :: string

definition adTotals0 :: "'f floatOps \<Rightarrow> 'f adTotals" where
  \<comment> \<open>the zero values the \<open>var\<close> declarations leave\<close>
  "adTotals0 ops = \<lparr>totalClicks = 0, totalImpressions = 0, totalCost = zero64 ops,
                     latestDate = zeroTime, channel = [], campaignID = []\<rparr>"

definition adStep :: "'f floatOps \<Rightarrow> 'f adTotals \<Rightarrow> 'f ProcessedAdData \<Rightarrow> 'f adTotals" where
  \<comment> \<open>one iteration of \<open>for _, ad := range ads\<close>\<close>
  "adStep ops st ad =
     (let st1 = st\<lparr>totalClicks := totalClicks st + ad_Clicks ad,
                    totalImpressions := totalImpressions st + ad_Impressions ad,
                    totalCost := add64 ops (totalCost st) (ad_Cost ad)\<rparr>
      in if After (ad_Date ad) (latestDate st1)
         then st1\<lparr>latestDate := ad_Date ad, channel := ad_Channel ad,
                   campaignID := ad_CampaignID ad\<rparr>
         else st1)"

fun aggregateAds :: "'f floatOps \<Rightarrow> 'f adTotals \<Rightarrow> 'f ProcessedAdData list \<Rightarrow> 'f adTotals" where
  "aggregateAds ops st [] = st"
| "aggregateAds ops st (ad # rest) = aggregateAds ops (adStep ops st ad) rest"

text \<open>The local variables of the second loop.\<close>

record 'f oppTotals =
  leads :: go_int
  opps :: go_int
  closedWon :: go_int
  revenue :: 'f

definition oppTotals0 :: "'f floatOps \<Rightarrow> 'f oppTotals" where
  "oppTotals0 ops = \<lparr>leads = 0, opps = 0, closedWon = 0, revenue = zero64 ops\<rparr>"

definition oppStep :: "'f floatOps \<Rightarrow> 'f oppTotals \<Rightarrow> 'f ProcessedOpportunity \<Rightarrow> 'f oppTotals" where
  \<comment> \<open>the \<open>switch opp.Stage\<close>, which has no default case\<close>
  "oppStep ops st opp =
     (if opp_Stage opp = StageLead then st\<lparr>leads := leads st + 1\<rparr>
      else if opp_Stage opp = StageOpportunity then st\<lparr>opps := opps st + 1\<rparr>
      else if opp_Stage opp = StageClosedWon
           then st\<lparr>closedWon := closedWon st + 1,
                    revenue := add64 ops (revenue st) (opp_Amount opp)\<rparr>
      else st)"

fun countStages ::
  "'f floatOps \<Rightarrow> 'f oppTotals \<Rightarrow> 'f ProcessedOpportunity list \<Rightarrow> 'f oppTotals" where
  "countStages ops st [] = st"
| "countStages ops st (opp # rest) = countStages ops (oppStep ops st opp) rest"

definition derivedMetrics :: "'f floatOps \<Rightarrow> 'f BusinessMetrics \<Rightarrow> 'f BusinessMetrics" where
  \<comment> \<open>the five guarded assignments that end \<open>calculateMetricForUTM\<close>\<close>
  "derivedMetrics ops metric =
     (let m1 = (if 0 < sint (bm_Clicks metric)
                then metric\<lparr>bm_CPC := div64 ops (bm_Cost metric) (float64 ops (bm_Clicks metric))\<rparr>
                else metric);
          m2 = (if 0 < sint (bm_Leads m1)
                then m1\<lparr>bm_CPA := div64 ops (bm_Cost m1) (float64 ops (bm_Leads m1))\<rparr>
                else m1);
          m3 = (if 0 < sint (bm_Leads m2)
                then m2\<lparr>bm_CVRLeadToOpp :=
                          div64 ops (float64 ops (bm_Opportunities m2)) (float64 ops (bm_Leads m2))\<rparr>
                else m2);
          m4 = (if 0 < sint (bm_Opportunities m3)
                then m3\<lparr>bm_CVROppToWon :=
                          div64 ops (float64 ops (bm_ClosedWon m3))
                            (float64 ops (bm_Opportunities m3))\<rparr>
                else m3)
      in if gt64 ops (bm_Cost m4) (zero64 ops)
         then m4\<lparr>bm_ROAS := div64 ops (bm_Revenue m4) (bm_Cost m4)\<rparr>
         else m4)"

definition calculateMetricForUTM ::
  "'f floatOps \<Rightarrow> Time \<Rightarrow> 'f ProcessedAdData list \<Rightarrow> 'f ProcessedOpportunity list \<Rightarrow> UTMKey
     \<Rightarrow> 'f BusinessMetrics option" where
  \<comment> \<open>\<open>now\<close> is the value of \<open>time.Now()\<close>; \<open>None\<close> is the \<open>nil\<close> result\<close>
  "calculateMetricForUTM ops now ads opportunities utm =
     (if length ads = 0 then None
      else
        let a = aggregateAds ops (adTotals0 ops) ads;
            s = countStages ops (oppTotals0 ops) opportunities
        in Some (derivedMetrics ops
             \<lparr>bm_Date = latestDate a, bm_Channel = channel a, bm_CampaignID = campaignID a,
              bm_UTMCampaign = Campaign utm, bm_UTMSource = Source utm, bm_UTMMedium = Medium utm,
              bm_Clicks = totalClicks a, bm_Impressions = totalImpressions a,
              bm_Cost = totalCost a,
              bm_Leads = leads s, bm_Opportunities = opps s, bm_ClosedWon = closedWon s,
              bm_Revenue = revenue s,
              bm_CPC = zero64 ops, bm_CPA = zero64 ops, bm_CVRLeadToOpp = zero64 ops,
              bm_CVROppToWon = zero64 ops, bm_ROAS = zero64 ops,
              bm_CalculatedAt = now\<rparr>))"

definition firstLatest :: "Time \<Rightarrow> 'f ProcessedAdData list \<Rightarrow> nat \<Rightarrow> bool" where
  \<comment> \<open>\<open>i\<close> is the first position of \<open>ads\<close> that holds the latest instant, which is after
      \<open>d0\<close>\<close>
  "firstLatest d0 ads i \<longleftrightarrow> i < length ads \<and> After (ad_Date (ads ! i)) d0 \<and>
     (\<forall>j<length ads. \<not> After (ad_Date (ads ! j)) (ad_Date (ads ! i))) \<and>
     (\<forall>j<i. Before (ad_Date (ads ! j)) (ad_Date (ads ! i)))"

definition stageCount :: "OpportunityStage \<Rightarrow> 'f ProcessedOpportunity list \<Rightarrow> go_int" where
  \<comment> \<open>the number of opportunities of a stage, as an \<open>int\<close>\<close>
  "stageCount stage opportunities =
     word_of_nat (length (filter (\<lambda>opp. opp_Stage opp = stage) opportunities))"

section \<open>Aggregation: \<open>calculateMetricsWithWorkerPool\<close>\<close>

text \<open>
  The two maps \<open>adsByUTM\<close> and \<open>oppsByUTM\<close> are association lists, so that the keys
  can be enumerated. Go leaves the order in which \<open>range\<close> visits a map, and the order
  in which the workers deliver their results, unspecified: the model takes the order in
  which the keys were first inserted.
\<close>

definition utmOfAd :: "'f ProcessedAdData \<Rightarrow> UTMKey" where
  "utmOfAd ad = \<lparr>Campaign = ad_UTMCampaign ad, Source = ad_UTMSource ad,
                 Medium = ad_UTMMedium ad\<rparr>"

definition utmOfOpp :: "'f ProcessedOpportunity \<Rightarrow> UTMKey" where
  "utmOfOpp opp = \<lparr>Campaign = opp_UTMCampaign opp, Source = opp_UTMSource opp,
                   Medium = opp_UTMMedium opp\<rparr>"

definition utmOfMetric :: "'f BusinessMetrics \<Rightarrow> UTMKey" where
  "utmOfMetric m = \<lparr>Campaign = bm_UTMCampaign m, Source = bm_UTMSource m,
                    Medium = bm_UTMMedium m\<rparr>"

fun appendGroup :: "'k \<Rightarrow> 'v \<Rightarrow> ('k \<times> 'v list) list \<Rightarrow> ('k \<times> 'v list) list" where
  \<comment> \<open>\<open>m[k] = append(m[k], v)\<close>\<close>
  "appendGroup k v [] = [(k, [v])]"
| "appendGroup k v ((k', vs) # rest) =
     (if k = k' then (k', vs @ [v]) # rest else (k', vs) # appendGroup k v rest)"

definition lookupGroup :: "('k \<times> 'v list) list \<Rightarrow> 'k \<Rightarrow> 'v list" where
  \<comment> \<open>\<open>m[k]\<close>: the nil slice when the key is absent\<close>
  "lookupGroup m k = (case map_of m k of None \<Rightarrow> [] | Some vs \<Rightarrow> vs)"

fun groupAds ::
  "(UTMKey \<times> 'f ProcessedAdData list) list \<Rightarrow> 'f ProcessedAdData list
     \<Rightarrow> (UTMKey \<times> 'f ProcessedAdData list) list" where
  "groupAds adsByUTM [] = adsByUTM"
| "groupAds adsByUTM (ad # rest) = groupAds (appendGroup (utmOfAd ad) ad adsByUTM) rest"

fun groupOpps ::
  "(UTMKey \<times> 'f ProcessedOpportunity list) list \<Rightarrow> 'f ProcessedOpportunity list
     \<Rightarrow> (UTMKey \<times> 'f ProcessedOpportunity list) list" where
  "groupOpps oppsByUTM [] = oppsByUTM"
| "groupOpps oppsByUTM (opp # rest) = groupOpps (appendGroup (utmOfOpp opp) opp oppsByUTM) rest"

fun runJobs ::
  "'f floatOps \<Rightarrow> Time \<Rightarrow> (UTMKey \<times> 'f ProcessedAdData list) list
     \<Rightarrow> (UTMKey \<times> 'f ProcessedOpportunity list) list
     \<Rightarrow> UTMKey list \<Rightarrow> 'f BusinessMetrics list" where
  \<comment> \<open>what the workers send to \<open>results\<close> for the jobs they receive\<close>
  "runJobs ops now adsByUTM oppsByUTM [] = []"
| "runJobs ops now adsByUTM oppsByUTM (utm # jobs) =
     (case calculateMetricForUTM ops now (lookupGroup adsByUTM utm) (lookupGroup oppsByUTM utm) utm
      of
        None \<Rightarrow> runJobs ops now adsByUTM oppsByUTM jobs
      | Some metric \<Rightarrow> metric # runJobs ops now adsByUTM oppsByUTM jobs)"

definition calculateMetricsWithWorkerPool ::
  "'f floatOps \<Rightarrow> go_int \<Rightarrow> Time \<Rightarrow> 'f ProcessedAdData list \<Rightarrow> 'f ProcessedOpportunity list
     \<Rightarrow> 'f BusinessMetrics list"
where
  \<comment> \<open>\<open>workerPool\<close> is \<open>s.workerPool\<close>: with no worker started nothing reads the jobs, and
      \<open>results\<close> is closed empty\<close>
  "calculateMetricsWithWorkerPool ops workerPool now ads opportunities =
     (let adsByUTM = groupAds [] ads;
          oppsByUTM = groupOpps [] opportunities
      in if 0 < sint workerPool then runJobs ops now adsByUTM oppsByUTM (map fst adsByUTM)
         else [])"

section \<open>Transformation: \<open>processAdsData\<close>\<close>

text \<open>
  \<open>time.Parse\<close> belongs to Go's standard library, not to this repository: it is the
  parameter \<open>parse\<close> of the model, \<open>parse layout value\<close> being \<open>None\<close> when
  \<open>time.Parse(layout, value)\<close> returns an error.
\<close>

definition RFC3339 :: string where
  "RFC3339 = ''2006-01-02T15:04:05Z07:00''"

definition adDateFormats :: "string list" where
  "adDateFormats = [''2006-01-02'', ''2006/01/02'', ''01/02/2006'', ''02/01/2006'', RFC3339]"

definition crmDateFormats :: "string list" where
  "crmDateFormats = [RFC3339, ''2006-01-02 15:04:05'', ''2006-01-02'', ''2006/01/02 15:04:05'',
                     ''2006/01/02'']"

fun tryDateFormats ::
  "(string \<Rightarrow> string \<Rightarrow> Time option) \<Rightarrow> string list \<Rightarrow> string \<Rightarrow> Time \<times> bool \<Rightarrow> Time \<times> bool"
where
  \<comment> \<open>the loop \<open>for _, format := range dateFormats\<close> with its \<open>break\<close>; the state is
      \<open>(date, err != nil)\<close>\<close>
  "tryDateFormats parse [] raw (date, failed) = (date, failed)"
| "tryDateFormats parse (format # rest) raw (date, failed) =
     (case parse format raw of
        Some t \<Rightarrow> (t, False)
      | None \<Rightarrow> tryDateFormats parse rest raw (zeroTime, True))"

type_synonym CounterVec = "string \<times> string \<Rightarrow> nat"

definition RecordETLRecordFailure :: "CounterVec \<Rightarrow> string \<Rightarrow> string \<Rightarrow> CounterVec" where
  \<comment> \<open>\<open>m.ETLRecordsFailed.WithLabelValues(source, errorType).Inc()\<close>\<close>
  "RecordETLRecordFailure c source errorType =
     c((source, errorType) := c (source, errorType) + 1)"

definition normalizeAd :: "Time \<Rightarrow> 'f AdPerformance \<Rightarrow> Time \<Rightarrow> 'f ProcessedAdData" where
  \<comment> \<open>the record appended at the end of one iteration of \<open>processAdsData\<close>\<close>
  "normalizeAd now ad date =
     (let utmCampaign = (if raw_UTMCampaign ad = [] then ''unknown'' else raw_UTMCampaign ad);
          utmSource = (if raw_UTMSource ad = [] then ''unknown'' else raw_UTMSource ad);
          utmMedium = (if raw_UTMMedium ad = [] then ''unknown'' else raw_UTMMedium ad)
      in \<lparr>ad_Date = date, ad_CampaignID = raw_CampaignID ad, ad_Channel = raw_Channel ad,
          ad_Clicks = raw_Clicks ad, ad_Impressions = raw_Impressions ad, ad_Cost = raw_Cost ad,
          ad_UTMCampaign = utmCampaign, ad_UTMSource = utmSource, ad_UTMMedium = utmMedium,
          ad_ProcessedAt = now\<rparr>)"

fun processAdsLoop ::
  "(string \<Rightarrow> string \<Rightarrow> Time option) \<Rightarrow> Time \<Rightarrow> Time option
     \<Rightarrow> 'f ProcessedAdData list \<times> CounterVec \<Rightarrow> 'f AdPerformance list
     \<Rightarrow> 'f ProcessedAdData list \<times> CounterVec" where
  "processAdsLoop parse now since (processed, failures) [] = (processed, failures)"
| "processAdsLoop parse now since (processed, failures) (ad # rest) =
     (case tryDateFormats parse adDateFormats (raw_Date ad) (zeroTime, False) of
        (date, True) \<Rightarrow>
          processAdsLoop parse now since
            (processed, RecordETLRecordFailure failures ''ads'' ''date_parse'') rest
      | (date, False) \<Rightarrow>
          if (case since of None \<Rightarrow> False | Some s \<Rightarrow> Before date s)
          then processAdsLoop parse now since (processed, failures) rest
          else processAdsLoop parse now since
                 (processed @ [normalizeAd now ad date], failures) rest)"

definition processAdsData ::
  "(string \<Rightarrow> string \<Rightarrow> Time option) \<Rightarrow> Time \<Rightarrow> CounterVec \<Rightarrow> 'f AdPerformance list
     \<Rightarrow> Time option \<Rightarrow> 'f ProcessedAdData list \<times> CounterVec" where
  \<comment> \<open>returns the processed records and the failure counters of \<open>s.metrics\<close>\<close>
  "processAdsData parse now failures ads since =
     processAdsLoop parse now since ([], failures) ads"

section \<open>The partitioned stores\<close>

text \<open>
  The field \<open>data\<close> of a repository, a Go map from the text of a day to the records of
  that day, is a map from \<^const>\<open>dateKey\<close> to a list. A method that changes the
  repository returns the new map.
\<close>

type_synonym 'a store = "int \<rightharpoonup> 'a list"

definition appendAt :: "'a store \<Rightarrow> int \<Rightarrow> 'a \<Rightarrow> 'a store" where
  \<comment> \<open>\<open>r.data[dateKey] = append(r.data[dateKey], v)\<close>\<close>
  "appendAt data k v = data(k \<mapsto> (case data k of None \<Rightarrow> [] | Some vs \<Rightarrow> vs) @ [v])"

fun AdRepository_Store :: "'f ProcessedAdData store \<Rightarrow> 'f ProcessedAdData list \<Rightarrow> 'f ProcessedAdData store"
where
  "AdRepository_Store data [] = data"
| "AdRepository_Store data (ad # rest) =
     AdRepository_Store (appendAt data (dateKey (ad_Date ad)) ad) rest"

function scanDays :: "'a store \<Rightarrow> Time \<Rightarrow> Time \<Rightarrow> 'a list \<Rightarrow> 'a list" where
  \<comment> \<open>the loop \<open>for date := from; !date.After(to); date = date.AddDate(0, 0, 1)\<close> of
      \<open>GetByDateRange\<close> and of \<open>GetByFilter\<close>, with the slice it appends to\<close>
  "scanDays data date to result =
     (if After date to then result
      else scanDays data (AddDate date 1) to
             (case data (dateKey date) of None \<Rightarrow> result | Some found \<Rightarrow> result @ found))"
  by pat_completeness auto

termination
  by (relation "measure (\<lambda>(data, date, to, result). nat (instant to - instant date + 1))")
    (auto simp: AddDate_def After_def nsPerDay_def)

declare scanDays.simps [simp del]

definition AdRepository_GetByDateRange ::
  "'f ProcessedAdData store \<Rightarrow> Time \<Rightarrow> Time \<Rightarrow> 'f ProcessedAdData list" where
  "AdRepository_GetByDateRange data from to = scanDays data from to []"

fun MetricsRepository_Store ::
  "'f BusinessMetrics store \<Rightarrow> 'f BusinessMetrics list \<Rightarrow> 'f BusinessMetrics store" where
  "MetricsRepository_Store data [] = data"
| "MetricsRepository_Store data (metric # rest) =
     MetricsRepository_Store (appendAt data (dateKey (bm_Date metric)) metric) rest"

definition matchesFilter :: "'f BusinessMetrics \<Rightarrow> MetricsFilter \<Rightarrow> bool" where
  "matchesFilter metric filter' =
     (if f_Channel filter' \<noteq> [] \<and> bm_Channel metric \<noteq> f_Channel filter' then False
      else if f_CampaignID filter' \<noteq> [] \<and> bm_CampaignID metric \<noteq> f_CampaignID filter' then False
      else if f_UTMCampaign filter' \<noteq> [] \<and> bm_UTMCampaign metric \<noteq> f_UTMCampaign filter' then False
      else if f_UTMSource filter' \<noteq> [] \<and> bm_UTMSource metric \<noteq> f_UTMSource filter' then False
      else if f_UTMMedium filter' \<noteq> [] \<and> bm_UTMMedium metric \<noteq> f_UTMMedium filter' then False
      else True)"

datatype go_panic = SliceBoundsOutOfRange

definition goSlice :: "'a list \<Rightarrow> int \<Rightarrow> int \<Rightarrow> go_panic + 'a list" where
  \<comment> \<open>the slice expression \<open>xs[low:high]\<close> of a slice whose capacity is its length: Go
      panics unless \<open>0 \<le> low \<le> high \<le> cap(xs)\<close>\<close>
  "goSlice xs low high =
     (if 0 \<le> low \<and> low \<le> high \<and> high \<le> int (length xs)
      then Inr (take (nat (high - low)) (drop (nat low) xs))
      else Inl SliceBoundsOutOfRange)"

text \<open>
  \<open>GetByFilter\<close>: \<open>now1\<close> and \<open>now2\<close> are the values of the two calls of \<open>time.Now()\<close>,
  in the order of the source: the first is moved back by 365 days for \<open>from\<close>, the second
  is \<open>to\<close>. \<open>sort.Slice\<close> promises no order among records of equal instant; the model
  sorts stably. The source returns a \<open>nil\<close> error on every path, so the only failure of
  the model is a panic of the slice expression. The integers \<open>total\<close>, \<open>start\<close> and \<open>end\<close>
  are held by their values; the one addition, \<open>offset + limit\<close>, is the addition of
  \<open>int\<close>, which wraps around.
\<close>

definition GetByFilter ::
  "Time \<Rightarrow> Time \<Rightarrow> 'f BusinessMetrics store \<Rightarrow> MetricsFilter
     \<Rightarrow> go_panic + 'f MetricsResponse" where
  "GetByFilter now1 now2 data filter' =
     (let from = (case f_From filter' of None \<Rightarrow> AddDate now1 (- 365) | Some t \<Rightarrow> t);
          to = (case f_To filter' of None \<Rightarrow> now2 | Some t \<Rightarrow> t);
          allMetrics = scanDays data from to [];
          filteredMetrics = sort_key (\<lambda>metric. instant (bm_Date metric))
              (List.filter (\<lambda>metric. matchesFilter metric filter') allMetrics);
          limit = (if 0 < sint (f_Limit filter') then f_Limit filter' else 100);
          offset = (if 0 < sint (f_Offset filter') then f_Offset filter' else 0);
          total = int (length filteredMetrics);
          start = (if total < sint offset then total else sint offset);
          end = (if total < sint (offset + limit) then total else sint (offset + limit))
      in case (if start < end then goSlice filteredMetrics start end else Inr []) of
           Inl p \<Rightarrow> Inl p
         | Inr paginatedMetrics \<Rightarrow>
             Inr \<lparr>resp_Data = paginatedMetrics, resp_Total = total, resp_Limit = limit,
                  resp_Offset = offset, resp_HasMore = (end < total)\<rparr>)"

type_synonym error = string

definition MetricsRepository_GetByDate ::
  "'f BusinessMetrics store \<Rightarrow> Time \<Rightarrow> error + 'f BusinessMetrics list" where
  "MetricsRepository_GetByDate data date =
     (case data (dateKey date) of Some metrics \<Rightarrow> Inr metrics | None \<Rightarrow> Inr [])"

section \<open>Export: \<open>ExportMetrics\<close>\<close>

record 'f ExportData =
  exp_Date :: string
  exp_Channel :: string
  exp_CampaignID :: string
  exp_Clicks :: go_int
  exp_Impressions :: go_int
  exp_Cost :: 'f
  exp_Leads :: go_int
  exp_Opportunities :: go_int
  exp_ClosedWon :: go_int
  exp_Revenue :: 'f
  exp_CPC :: 'f
  exp_CPA :: 'f
  exp_CVRLeadToOpp :: 'f
  exp_CVROppToWon :: 'f
  exp_ROAS :: 'f

definition toExportData :: "(Time \<Rightarrow> string) \<Rightarrow> 'f BusinessMetrics \<Rightarrow> 'f ExportData" where
  "toExportData fmt metric =
     \<lparr>exp_Date = fmt (bm_Date metric), exp_Channel = bm_Channel metric,
      exp_CampaignID = bm_CampaignID metric, exp_Clicks = bm_Clicks metric,
      exp_Impressions = bm_Impressions metric, exp_Cost = bm_Cost metric,
      exp_Leads = bm_Leads metric, exp_Opportunities = bm_Opportunities metric,
      exp_ClosedWon = bm_ClosedWon metric, exp_Revenue = bm_Revenue metric,
      exp_CPC = bm_CPC metric, exp_CPA = bm_CPA metric,
      exp_CVRLeadToOpp = bm_CVRLeadToOpp metric, exp_CVROppToWon = bm_CVROppToWon metric,
      exp_ROAS = bm_ROAS metric\<rparr>"

text \<open>
  \<open>ExportMetrics\<close> returns its error (\<open>None\<close> for \<open>nil\<close>, otherwise the message) and the
  calls it made to the export client, in order. \<open>fmt\<close> is \<open>Format("2006-01-02")\<close>, needed
  here for its text; \<open>export\<close> is \<open>s.exportClient.Export\<close>, which returns its error.
\<close>

definition ExportMetrics ::
  "(Time \<Rightarrow> string) \<Rightarrow> ('f ExportData list \<Rightarrow> Time \<Rightarrow> error option) \<Rightarrow> 'f BusinessMetrics store \<Rightarrow> Time
     \<Rightarrow> error option \<times> ('f ExportData list \<times> Time) list" where
  "ExportMetrics fmt export data date =
     (case MetricsRepository_GetByDate data date of
        Inl err \<Rightarrow> (Some (''failed to get metrics for export: '' @ err), [])
      | Inr metrics \<Rightarrow>
          if length metrics = 0 then (Some (''no metrics found for date '' @ fmt date), [])
          else
            (let exportData = map (toExportData fmt) metrics
             in (case export exportData date of
                   Some err \<Rightarrow>
                     (Some (''failed to export metrics: '' @ err), [(exportData, date)])
                 | None \<Rightarrow> (None, [(exportData, date)]))))"

section \<open>The spec's reading of the transformation\<close>

text \<open>
  The definitions of this section follow the words of the specification, not the code:
  they are what the code is compared with. \<open>spec_ParseFlexibleDate\<close> tries each layout
  in order and returns the first successful parse; \<open>spec_NormalizeUTM\<close> returns
  \<open>unknown\<close> for the empty string and any other value unchanged; \<open>spec_TransformAd\<close>
  is the fate of one raw record.
\<close>

fun spec_ParseFlexibleDate ::
  "(string \<Rightarrow> string \<Rightarrow> Time option) \<Rightarrow> string list \<Rightarrow> string \<Rightarrow> Time option" where
  "spec_ParseFlexibleDate parse [] raw = None"
| "spec_ParseFlexibleDate parse (layout # layouts) raw =
     (case parse layout raw of
        Some t \<Rightarrow> Some t
      | None \<Rightarrow> spec_ParseFlexibleDate parse layouts raw)"

definition spec_NormalizeUTM :: "string \<Rightarrow> string" where
  "spec_NormalizeUTM v = (if v = [] then ''unknown'' else v)"

datatype 'f adOutcome = Emitted "'f ProcessedAdData" | DroppedUnparsed | DroppedBeforeSince

definition spec_TransformAd ::
  "(string \<Rightarrow> string \<Rightarrow> Time option) \<Rightarrow> Time \<Rightarrow> Time option \<Rightarrow> 'f AdPerformance \<Rightarrow> 'f adOutcome" where
  "spec_TransformAd parse now since ad =
     (case spec_ParseFlexibleDate parse adDateFormats (raw_Date ad) of
        None \<Rightarrow> DroppedUnparsed
      | Some date \<Rightarrow>
          (case since of
             Some s \<Rightarrow>
               if Before date s then DroppedBeforeSince
               else Emitted \<lparr>ad_Date = date, ad_CampaignID = raw_CampaignID ad,
                      ad_Channel = raw_Channel ad, ad_Clicks = raw_Clicks ad,
                      ad_Impressions = raw_Impressions ad, ad_Cost = raw_Cost ad,
                      ad_UTMCampaign = spec_NormalizeUTM (raw_UTMCampaign ad),
                      ad_UTMSource = spec_NormalizeUTM (raw_UTMSource ad),
                      ad_UTMMedium = spec_NormalizeUTM (raw_UTMMedium ad),
                      ad_ProcessedAt = now\<rparr>
           | None \<Rightarrow>
               Emitted \<lparr>ad_Date = date, ad_CampaignID = raw_CampaignID ad,
                 ad_Channel = raw_Channel ad, ad_Clicks = raw_Clicks ad,
                 ad_Impressions = raw_Impressions ad, ad_Cost = raw_Cost ad,
                 ad_UTMCampaign = spec_NormalizeUTM (raw_UTMCampaign ad),
                 ad_UTMSource = spec_NormalizeUTM (raw_UTMSource ad),
                 ad_UTMMedium = spec_NormalizeUTM (raw_UTMMedium ad),
                 ad_ProcessedAt = now\<rparr>))"

fun emitted :: "'f adOutcome \<Rightarrow> 'f ProcessedAdData option" where
  "emitted (Emitted r) = Some r"
| "emitted DroppedUnparsed = None"
| "emitted DroppedBeforeSince = None"

section \<open>Names for the parts of a query\<close>

text \<open>
  Three subterms of \<^const>\<open>GetByFilter\<close>, named to state its properties: the limit and
  the offset in force, and the slice \<open>filteredMetrics\<close> once sorted.
\<close>

definition effectiveLimit :: "MetricsFilter \<Rightarrow> go_int" where
  "effectiveLimit filter' = (if 0 < sint (f_Limit filter') then f_Limit filter' else 100)"

definition effectiveOffset :: "MetricsFilter \<Rightarrow> go_int" where
  "effectiveOffset filter' = (if 0 < sint (f_Offset filter') then f_Offset filter' else 0)"

definition sortedMatches ::
  "Time \<Rightarrow> Time \<Rightarrow> 'f BusinessMetrics store \<Rightarrow> MetricsFilter \<Rightarrow> 'f BusinessMetrics list" where
  "sortedMatches now1 now2 data filter' =
     sort_key (\<lambda>metric. instant (bm_Date metric))
       (List.filter (\<lambda>metric. matchesFilter metric filter')
          (scanDays data
             (case f_From filter' of None \<Rightarrow> AddDate now1 (- 365) | Some t \<Rightarrow> t)
             (case f_To filter' of None \<Rightarrow> now2 | Some t \<Rightarrow> t) []))"

section \<open>Names for the parts of a range scan\<close>

definition lookupDay :: "'a store \<Rightarrow> int \<Rightarrow> 'a list" where
  \<comment> \<open>the records under a day key, none when the key is absent\<close>
  "lookupDay data k = (case data k of None \<Rightarrow> [] | Some found \<Rightarrow> found)"

function daysVisited :: "Time \<Rightarrow> Time \<Rightarrow> int list" where
  \<comment> \<open>the day keys that the loop of \<^const>\<open>scanDays\<close> looks up, in order\<close>
  "daysVisited date to =
     (if After date to then [] else dateKey date # daysVisited (AddDate date 1) to)"
  by pat_completeness auto

termination
  by (relation "measure (\<lambda>(date, to). nat (instant to - instant date + 1))")
    (auto simp: AddDate_def After_def nsPerDay_def)

declare daysVisited.simps [simp del]

section \<open>Sample data\<close>

text \<open>
  Concrete values for the closed theorems below. Day 739251 is January 1, 2025, and
  Go's zero Time is January 1 of year 1.

  \<open>sampleFloat\<close> stands in for \<open>float64\<close> there: the finite values, computed exactly,
  and one more value for an infinity or a NaN, which is what a division by zero gives.
  It is not a model of the arithmetic of \<open>float64\<close>.
\<close>

datatype sampleFloat = Finite real | NotFinite

definition sampleOps :: "sampleFloat floatOps" where
  "sampleOps =
     \<lparr>zero64 = Finite 0,
      add64 = (\<lambda>a b. case a of NotFinite \<Rightarrow> NotFinite
                 | Finite x \<Rightarrow> (case b of NotFinite \<Rightarrow> NotFinite | Finite y \<Rightarrow> Finite (x + y))),
      div64 = (\<lambda>a b. case a of NotFinite \<Rightarrow> NotFinite
                 | Finite x \<Rightarrow> (case b of NotFinite \<Rightarrow> NotFinite
                     | Finite y \<Rightarrow> if y = 0 then NotFinite else Finite (x / y))),
      gt64 = (\<lambda>a b. case a of NotFinite \<Rightarrow> False
                 | Finite x \<Rightarrow> (case b of NotFinite \<Rightarrow> False | Finite y \<Rightarrow> y < x)),
      float64 = (\<lambda>n. Finite (real_of_int (sint n)))\<rparr>"

definition utcDay :: "int \<Rightarrow> Time" where
  \<comment> \<open>midnight UTC of the day of the given number\<close>
  "utcDay d = \<lparr>instant = d * nsPerDay, zoneOffset = 0\<rparr>"

definition day2025 :: Time where
  "day2025 = utcDay 739251"

definition sampleUTM :: UTMKey where
  "sampleUTM = \<lparr>Campaign = ''sale'', Source = ''unknown'', Medium = ''unknown''\<rparr>"

definition sampleAdA :: "sampleFloat ProcessedAdData" where
  "sampleAdA = \<lparr>ad_Date = day2025, ad_CampaignID = ''cmp-1'', ad_Channel = ''google'',
      ad_Clicks = 100, ad_Impressions = 1000, ad_Cost = Finite 50,
      ad_UTMCampaign = ''sale'', ad_UTMSource = ''unknown'', ad_UTMMedium = ''unknown'',
      ad_ProcessedAt = day2025\<rparr>"

definition sampleAdB :: "sampleFloat ProcessedAdData" where
  "sampleAdB = \<lparr>ad_Date = day2025, ad_CampaignID = ''cmp-2'', ad_Channel = ''facebook'',
      ad_Clicks = 0, ad_Impressions = 10, ad_Cost = Finite 0,
      ad_UTMCampaign = ''sale'', ad_UTMSource = ''unknown'', ad_UTMMedium = ''unknown'',
      ad_ProcessedAt = day2025\<rparr>"

definition sampleAdIdle :: "sampleFloat ProcessedAdData" where
  \<comment> \<open>an ad record with a cost and no click\<close>
  "sampleAdIdle = sampleAdA\<lparr>ad_Clicks := 0\<rparr>"

definition sampleLead :: "sampleFloat ProcessedOpportunity" where
  "sampleLead = \<lparr>opp_OpportunityID = ''o-1'', opp_ContactEmail = ''a@example.com'',
      opp_Stage = StageLead, opp_Amount = Finite 0, opp_CreatedAt = day2025,
      opp_UTMCampaign = ''sale'', opp_UTMSource = ''unknown'', opp_UTMMedium = ''unknown'',
      opp_ProcessedAt = day2025\<rparr>"

definition sampleOrphan :: "sampleFloat ProcessedOpportunity" where
  \<comment> \<open>an opportunity whose UTM key no ad record carries\<close>
  "sampleOrphan = \<lparr>opp_OpportunityID = ''o-2'', opp_ContactEmail = ''b@example.com'',
      opp_Stage = StageClosedWon, opp_Amount = Finite 900, opp_CreatedAt = day2025,
      opp_UTMCampaign = ''newsletter'', opp_UTMSource = ''mail'', opp_UTMMedium = ''email'',
      opp_ProcessedAt = day2025\<rparr>"

text \<open>
  Results of \<open>time.Parse\<close> on three inputs, to instantiate the parameter \<open>parse\<close> in
  closed theorems: \<open>03/04/2025\<close> read month first is March 4, 2025 (day 739313) and
  read day first is April 3, 2025 (day 739343). Every other pair is taken to fail; the
  table is not a model of \<open>time.Parse\<close>.
\<close>

definition sampleParse :: "string \<Rightarrow> string \<Rightarrow> Time option" where
  "sampleParse layout v =
     (if v = ''03/04/2025'' \<and> layout = ''01/02/2006'' then Some (utcDay 739313)
      else if v = ''03/04/2025'' \<and> layout = ''02/01/2006'' then Some (utcDay 739343)
      else if v = ''2025-01-01'' \<and> layout = ''2006-01-02'' then Some day2025
      else None)"

definition sampleRaw :: "string \<Rightarrow> string \<Rightarrow> sampleFloat AdPerformance" where
  \<comment> \<open>a raw ad record of the given date text and \<open>utm_campaign\<close>, the other UTM fields empty\<close>
  "sampleRaw d c = \<lparr>raw_Date = d, raw_CampaignID = ''cmp-1'', raw_Channel = ''google'',
      raw_Clicks = 100, raw_Impressions = 1000, raw_Cost = Finite 50,
      raw_UTMCampaign = c, raw_UTMSource = [], raw_UTMMedium = []\<rparr>"

definition sampleMetric :: "sampleFloat BusinessMetrics" where
  "sampleMetric = \<lparr>bm_Date = day2025, bm_Channel = ''google'', bm_CampaignID = ''cmp-1'',
      bm_UTMCampaign = ''sale'', bm_UTMSource = ''unknown'', bm_UTMMedium = ''unknown'',
      bm_Clicks = 100, bm_Impressions = 1000, bm_Cost = Finite 50,
      bm_Leads = 1, bm_Opportunities = 0, bm_ClosedWon = 0, bm_Revenue = Finite 0,
      bm_CPC = Finite (1 / 2), bm_CPA = Finite 50, bm_CVRLeadToOpp = Finite 0,
      bm_CVROppToWon = Finite 0, bm_ROAS = Finite 0,
      bm_CalculatedAt = day2025\<rparr>"

definition futureMetric :: "sampleFloat BusinessMetrics" where
  \<comment> \<open>a bucket dated 30 days after \<^const>\<open>day2025\<close>\<close>
  "futureMetric = sampleMetric\<lparr>bm_Date := AddDate day2025 30\<rparr>"

definition sampleFilter :: "Time option \<Rightarrow> Time option \<Rightarrow> go_int \<Rightarrow> go_int \<Rightarrow> MetricsFilter" where
  \<comment> \<open>a filter of the given bounds, limit and offset, its text fields unset\<close>
  "sampleFilter from to limit offset =
     \<lparr>f_From = from, f_To = to, f_Channel = [], f_CampaignID = [], f_UTMCampaign = [],
      f_UTMSource = [], f_UTMMedium = [], f_Limit = limit, f_Offset = offset\<rparr>"

definition sampleStore :: "sampleFloat BusinessMetrics store" where
  \<comment> \<open>the metrics repository after one \<open>Store\<close> of two buckets\<close>
  "sampleStore = MetricsRepository_Store Map.empty [sampleMetric, futureMetric]"

definition sampleAdC :: "sampleFloat ProcessedAdData" where
  \<comment> \<open>an ad record dated January 3, 2025, 00:00\<close>
  "sampleAdC = sampleAdA\<lparr>ad_Date := AddDate day2025 2\<rparr>"

definition noon2025 :: Time where
  \<comment> \<open>January 1, 2025, 12:00\<close>
  "noon2025 = \<lparr>instant = 739251 * nsPerDay + 43200000000000, zoneOffset = 0\<rparr>"

definition morning2025 :: Time where
  \<comment> \<open>January 3, 2025, 06:00\<close>
  "morning2025 = \<lparr>instant = 739253 * nsPerDay + 21600000000000, zoneOffset = 0\<rparr>"

definition sampleAdZero :: "sampleFloat ProcessedAdData" where
  \<comment> \<open>an ad record dated at Go's zero Time, which \<open>time.Parse\<close> returns for \<open>0001-01-01\<close>\<close>
  "sampleAdZero = sampleAdA\<lparr>ad_Date := zeroTime\<rparr>"

definition eastNow :: Time where
  \<comment> \<open>the instant of \<^const>\<open>noon2025\<close> on a clock 14 hours east of UTC, where it is
      January 2, 2025, 02:00\<close>
  "eastNow = \<lparr>instant = 739251 * nsPerDay + 43200000000000, zoneOffset = 50400000000000\<rparr>"

definition eastMetric :: "sampleFloat BusinessMetrics" where
  \<comment> \<open>a bucket dated January 2, 2025, 00:00 UTC\<close>
  "eastMetric = sampleMetric\<lparr>bm_Date := AddDate day2025 1\<rparr>"

definition westMetric :: "sampleFloat BusinessMetrics" where
  \<comment> \<open>a bucket dated January 1, 2025, 23:30 on a clock 2 hours west of UTC, which is
      January 2, 2025, 01:30 UTC\<close>
  "westMetric = sampleMetric\<lparr>bm_Date :=
     \<lparr>instant = 739252 * nsPerDay + 5400000000000, zoneOffset = - 7200000000000\<rparr>\<rparr>"

definition zoneStore :: "sampleFloat BusinessMetrics store" where
  \<comment> \<open>the metrics repository after one \<open>Store\<close> of four buckets\<close>
  "zoneStore =
     MetricsRepository_Store Map.empty [sampleMetric, eastMetric, westMetric, futureMetric]"

section \<open>Properties of the aggregation\<close>

lemma aggregateAds_snoc:
  "aggregateAds ops st (xs @ [x]) = adStep ops (aggregateAds ops st xs) x"
  by (induction xs arbitrary: st) auto

lemma adStep_fields:
  "latestDate (adStep ops st ad) =
     (if After (ad_Date ad) (latestDate st) then ad_Date ad else latestDate st)"
  "channel (adStep ops st ad) =
     (if After (ad_Date ad) (latestDate st) then ad_Channel ad else channel st)"
  "campaignID (adStep ops st ad) =
     (if After (ad_Date ad) (latestDate st) then ad_CampaignID ad else campaignID st)"
  "totalClicks (adStep ops st ad) = totalClicks st + ad_Clicks ad"
  "totalImpressions (adStep ops st ad) = totalImpressions st + ad_Impressions ad"
  "totalCost (adStep ops st ad) = add64 ops (totalCost st) (ad_Cost ad)"
  by (simp_all add: adStep_def Let_def)

text \<open>
  The first loop of \<open>calculateMetricForUTM\<close>: either no record is dated after the
  starting \<open>latestDate\<close> and the three variables keep their values, or they are those of
  the first record that holds the latest instant.
\<close>

lemma aggregateAds_latest:
  "((\<forall>ad\<in>set ads. \<not> After (ad_Date ad) (latestDate st)) \<and>
      latestDate (aggregateAds ops st ads) = latestDate st \<and>
      channel (aggregateAds ops st ads) = channel st \<and>
      campaignID (aggregateAds ops st ads) = campaignID st)
   \<or> (\<exists>i. firstLatest (latestDate st) ads i \<and>
      latestDate (aggregateAds ops st ads) = ad_Date (ads ! i) \<and>
      channel (aggregateAds ops st ads) = ad_Channel (ads ! i) \<and>
      campaignID (aggregateAds ops st ads) = ad_CampaignID (ads ! i))"
proof (induction ads rule: rev_induct)
  case Nil
  then show ?case by simp
next
  case (snoc x xs)
  let ?r = "aggregateAds ops st xs"
  show ?case
  proof (cases "After (ad_Date x) (latestDate ?r)")
    case True
    have le: "\<forall>j<length xs. \<not> After (ad_Date (xs ! j)) (latestDate ?r)"
      "\<not> After (latestDate st) (latestDate ?r)"
      using snoc.IH nth_mem [of _ xs] by (fastforce simp: firstLatest_def After_def)+
    have "firstLatest (latestDate st) (xs @ [x]) (length xs)"
      unfolding firstLatest_def using True le
      by (auto simp: nth_append less_Suc_eq After_def Before_def)
    then show ?thesis using True
      by (auto simp: aggregateAds_snoc adStep_fields)
  next
    case False
    from snoc.IH show ?thesis
    proof
      assume "(\<forall>ad\<in>set xs. \<not> After (ad_Date ad) (latestDate st)) \<and>
        latestDate ?r = latestDate st \<and> channel ?r = channel st \<and> campaignID ?r = campaignID st"
      then show ?thesis using False by (auto simp: aggregateAds_snoc adStep_fields)
    next
      assume "\<exists>i. firstLatest (latestDate st) xs i \<and> latestDate ?r = ad_Date (xs ! i) \<and>
        channel ?r = ad_Channel (xs ! i) \<and> campaignID ?r = ad_CampaignID (xs ! i)"
      then obtain i where i: "firstLatest (latestDate st) xs i" "latestDate ?r = ad_Date (xs ! i)"
        "channel ?r = ad_Channel (xs ! i)" "campaignID ?r = ad_CampaignID (xs ! i)" by blast
      have "firstLatest (latestDate st) (xs @ [x]) i"
        using i(1,2) False unfolding firstLatest_def
        by (auto simp: nth_append less_Suc_eq After_def Before_def)
      moreover have "i < length xs" using i(1) by (simp add: firstLatest_def)
      ultimately show ?thesis using i False
        by (auto simp: aggregateAds_snoc adStep_fields nth_append)
    qed
  qed
qed

lemma aggregateAds_totals:
  "totalClicks (aggregateAds ops st ads) = totalClicks st + sum_list (map ad_Clicks ads)"
  "totalImpressions (aggregateAds ops st ads) =
     totalImpressions st + sum_list (map ad_Impressions ads)"
  "totalCost (aggregateAds ops st ads) = foldl (add64 ops) (totalCost st) (map ad_Cost ads)"
  by (induction ads arbitrary: st; simp add: adStep_fields add.assoc)+

lemma oppStep_fields:
  "leads (oppStep ops st opp) = leads st + (if opp_Stage opp = StageLead then 1 else 0)"
  "opps (oppStep ops st opp) = opps st + (if opp_Stage opp = StageOpportunity then 1 else 0)"
  "closedWon (oppStep ops st opp) =
     closedWon st + (if opp_Stage opp = StageClosedWon then 1 else 0)"
  "revenue (oppStep ops st opp) =
     (if opp_Stage opp = StageClosedWon then add64 ops (revenue st) (opp_Amount opp)
      else revenue st)"
  by (simp_all add: oppStep_def StageLead_def StageOpportunity_def StageClosedWon_def)

lemma countStages_totals:
  "leads (countStages ops st os) = leads st + stageCount StageLead os"
  "opps (countStages ops st os) = opps st + stageCount StageOpportunity os"
  "closedWon (countStages ops st os) = closedWon st + stageCount StageClosedWon os"
  "revenue (countStages ops st os) =
     foldl (add64 ops) (revenue st)
       (map opp_Amount (filter (\<lambda>opp. opp_Stage opp = StageClosedWon) os))"
  by (induction os arbitrary: st; simp add: oppStep_fields stageCount_def add.assoc)+

lemma derivedMetrics_ratios:
  "bm_CPC (derivedMetrics ops m) =
     (if 0 < sint (bm_Clicks m) then div64 ops (bm_Cost m) (float64 ops (bm_Clicks m))
      else bm_CPC m)"
  "bm_CPA (derivedMetrics ops m) =
     (if 0 < sint (bm_Leads m) then div64 ops (bm_Cost m) (float64 ops (bm_Leads m))
      else bm_CPA m)"
  "bm_CVRLeadToOpp (derivedMetrics ops m) =
     (if 0 < sint (bm_Leads m)
      then div64 ops (float64 ops (bm_Opportunities m)) (float64 ops (bm_Leads m))
      else bm_CVRLeadToOpp m)"
  "bm_CVROppToWon (derivedMetrics ops m) =
     (if 0 < sint (bm_Opportunities m)
      then div64 ops (float64 ops (bm_ClosedWon m)) (float64 ops (bm_Opportunities m))
      else bm_CVROppToWon m)"
  "bm_ROAS (derivedMetrics ops m) =
     (if gt64 ops (bm_Cost m) (zero64 ops) then div64 ops (bm_Revenue m) (bm_Cost m)
      else bm_ROAS m)"
  by (simp_all add: derivedMetrics_def Let_def)

lemma derivedMetrics_keeps:
  "bm_Date (derivedMetrics ops m) = bm_Date m"
  "bm_Channel (derivedMetrics ops m) = bm_Channel m"
  "bm_CampaignID (derivedMetrics ops m) = bm_CampaignID m"
  "bm_UTMCampaign (derivedMetrics ops m) = bm_UTMCampaign m"
  "bm_UTMSource (derivedMetrics ops m) = bm_UTMSource m"
  "bm_UTMMedium (derivedMetrics ops m) = bm_UTMMedium m"
  "bm_Clicks (derivedMetrics ops m) = bm_Clicks m"
  "bm_Impressions (derivedMetrics ops m) = bm_Impressions m"
  "bm_Cost (derivedMetrics ops m) = bm_Cost m"
  "bm_Leads (derivedMetrics ops m) = bm_Leads m"
  "bm_Opportunities (derivedMetrics ops m) = bm_Opportunities m"
  "bm_ClosedWon (derivedMetrics ops m) = bm_ClosedWon m"
  "bm_Revenue (derivedMetrics ops m) = bm_Revenue m"
  by (simp_all add: derivedMetrics_def Let_def)

text \<open>
  Claim C1, as the code has it. For a group of ad records of which at least one is dated
  after Go's zero Time, \<open>calculateMetricForUTM\<close> emits a bucket whose date, channel and
  campaign id are those of the record with the latest date; when several records share
  the latest date, the first of them in the order of the slice supplies the channel and
  the campaign id (the comparison \<open>ad.Date.After(latestDate)\<close> is strict, so a later
  record of the same date changes nothing). Dates are compared as \<open>After\<close> compares
  them, by their instants.
\<close>

theorem C1_latest_date_first_seen:
  assumes "ads \<noteq> []" and "\<exists>ad\<in>set ads. 0 < instant (ad_Date ad)"
  shows "\<exists>m i. calculateMetricForUTM ops now ads opportunities utm = Some m \<and>
           i < length ads \<and>
           (\<forall>j<length ads. instant (ad_Date (ads ! j)) \<le> instant (ad_Date (ads ! i))) \<and>
           (\<forall>j<i. instant (ad_Date (ads ! j)) < instant (ad_Date (ads ! i))) \<and>
           bm_Date m = ad_Date (ads ! i) \<and> bm_Channel m = ad_Channel (ads ! i) \<and>
           bm_CampaignID m = ad_CampaignID (ads ! i)"
proof -
  have "\<not> (\<forall>ad\<in>set ads. \<not> After (ad_Date ad) (latestDate (adTotals0 ops)))"
    using assms(2) by (force simp: adTotals0_def After_def zeroTime_def)
  with aggregateAds_latest [of ads "adTotals0 ops" ops]
  obtain i where "firstLatest (latestDate (adTotals0 ops)) ads i"
    "latestDate (aggregateAds ops (adTotals0 ops) ads) = ad_Date (ads ! i)"
    "channel (aggregateAds ops (adTotals0 ops) ads) = ad_Channel (ads ! i)"
    "campaignID (aggregateAds ops (adTotals0 ops) ads) = ad_CampaignID (ads ! i)" by blast
  then show ?thesis using assms(1)
    by (auto simp: calculateMetricForUTM_def Let_def derivedMetrics_keeps firstLatest_def
        After_def Before_def not_less intro!: exI [of _ i])
qed

lemma day2025_instant: "instant day2025 = 63871286400000000000"
  by (simp add: day2025_def utcDay_def nsPerDay_def)

theorem C1_latest_date_first_seen_witness:
  "[sampleAdA, sampleAdB] \<noteq> [] \<and>
   (\<exists>ad\<in>set [sampleAdA, sampleAdB]. 0 < instant (ad_Date ad)) \<and>
   (\<exists>m i. calculateMetricForUTM sampleOps day2025 [sampleAdA, sampleAdB] [] sampleUTM = Some m \<and>
       i < length [sampleAdA, sampleAdB] \<and>
       (\<forall>j<length [sampleAdA, sampleAdB].
          instant (ad_Date ([sampleAdA, sampleAdB] ! j))
            \<le> instant (ad_Date ([sampleAdA, sampleAdB] ! i))) \<and>
       (\<forall>j<i. instant (ad_Date ([sampleAdA, sampleAdB] ! j))
                 < instant (ad_Date ([sampleAdA, sampleAdB] ! i))) \<and>
       bm_Date m = ad_Date ([sampleAdA, sampleAdB] ! i) \<and>
       bm_Channel m = ad_Channel ([sampleAdA, sampleAdB] ! i) \<and>
       bm_CampaignID m = ad_CampaignID ([sampleAdA, sampleAdB] ! i))"
proof -
  have h1: "[sampleAdA, sampleAdB] \<noteq> []" by simp
  have h2: "\<exists>ad\<in>set [sampleAdA, sampleAdB]. 0 < instant (ad_Date ad)"
    by (simp add: sampleAdA_def day2025_instant)
  from C1_latest_date_first_seen [OF h1 h2, of sampleOps day2025 "[]" sampleUTM] h1 h2
  show ?thesis by blast
qed

text \<open>
  The tie-break of claim C1 as the spec states it, last seen wins, fails: of two records
  of the same date the bucket takes the channel and the campaign id of the first.
\<close>

theorem C1_last_seen_wins_counterexample:
  "ad_Date sampleAdA = ad_Date sampleAdB \<and>
   map_option bm_Channel
     (calculateMetricForUTM sampleOps day2025 [sampleAdA, sampleAdB] [] sampleUTM)
     = Some (ad_Channel sampleAdA) \<and>
   map_option bm_Channel
     (calculateMetricForUTM sampleOps day2025 [sampleAdA, sampleAdB] [] sampleUTM)
     \<noteq> Some (ad_Channel sampleAdB) \<and>
   map_option bm_CampaignID
     (calculateMetricForUTM sampleOps day2025 [sampleAdA, sampleAdB] [] sampleUTM)
     = Some (ad_CampaignID sampleAdA) \<and>
   map_option bm_CampaignID
     (calculateMetricForUTM sampleOps day2025 [sampleAdA, sampleAdB] [] sampleUTM)
     \<noteq> Some (ad_CampaignID sampleAdB)"
  by (simp add: calculateMetricForUTM_def Let_def derivedMetrics_keeps adStep_fields
      adTotals0_def sampleAdA_def sampleAdB_def After_def zeroTime_def day2025_instant)

text \<open>
  Why the theorem asks for a record dated after the zero Time: \<open>latestDate\<close> starts at
  the zero Time, so a group whose records are all dated at it (or before) leaves the
  channel and the campaign id of the bucket empty.
\<close>

lemma zero_dated_group_has_no_channel:
  "map_option bm_Channel
     (calculateMetricForUTM sampleOps day2025 [sampleAdZero] [] sampleUTM) = Some [] \<and>
   map_option bm_CampaignID
     (calculateMetricForUTM sampleOps day2025 [sampleAdZero] [] sampleUTM) = Some [] \<and>
   ad_Channel sampleAdZero = ''google''"
  by (simp add: calculateMetricForUTM_def Let_def derivedMetrics_keeps adStep_fields
      adTotals0_def sampleAdZero_def sampleAdA_def After_def zeroTime_def)

text \<open>
  Claim C4. For a group with at least one ad record the bucket holds the totals of the
  group, added up in the order of the slice, and each derived ratio is the quotient that
  the division of \<open>float64\<close> returns when its guard holds, and the zero value otherwise,
  whatever the division would return there: CPC is cost by clicks when clicks are
  positive, CPA cost by leads and the lead-to-opportunity rate opportunities by leads when
  leads are positive, the opportunity-to-won rate closed-won by opportunities when
  opportunities are positive, and ROAS revenue by cost when the cost is greater than
  zero. So a ratio whose count of clicks, leads or opportunities is zero is the zero
  value, and so is ROAS when the cost is the zero value, zero being not greater than
  zero. Nothing else is asked of the arithmetic of \<open>float64\<close>.
\<close>

theorem C4_ratios_guarded:
  assumes "ads \<noteq> []"
  shows "\<exists>m. calculateMetricForUTM ops now ads opportunities utm = Some m \<and>
    bm_Clicks m = sum_list (map ad_Clicks ads) \<and>
    bm_Cost m = foldl (add64 ops) (zero64 ops) (map ad_Cost ads) \<and>
    bm_Leads m = stageCount StageLead opportunities \<and>
    bm_Opportunities m = stageCount StageOpportunity opportunities \<and>
    bm_ClosedWon m = stageCount StageClosedWon opportunities \<and>
    bm_Revenue m = foldl (add64 ops) (zero64 ops)
       (map opp_Amount (filter (\<lambda>opp. opp_Stage opp = StageClosedWon) opportunities)) \<and>
    bm_CPC m = (if 0 < sint (bm_Clicks m)
                then div64 ops (bm_Cost m) (float64 ops (bm_Clicks m)) else zero64 ops) \<and>
    bm_CPA m = (if 0 < sint (bm_Leads m)
                then div64 ops (bm_Cost m) (float64 ops (bm_Leads m)) else zero64 ops) \<and>
    bm_CVRLeadToOpp m =
      (if 0 < sint (bm_Leads m)
       then div64 ops (float64 ops (bm_Opportunities m)) (float64 ops (bm_Leads m))
       else zero64 ops) \<and>
    bm_CVROppToWon m =
      (if 0 < sint (bm_Opportunities m)
       then div64 ops (float64 ops (bm_ClosedWon m)) (float64 ops (bm_Opportunities m))
       else zero64 ops) \<and>
    bm_ROAS m = (if gt64 ops (bm_Cost m) (zero64 ops)
                 then div64 ops (bm_Revenue m) (bm_Cost m) else zero64 ops) \<and>
    (bm_Clicks m = 0 \<longrightarrow> bm_CPC m = zero64 ops) \<and>
    (bm_Leads m = 0 \<longrightarrow> bm_CPA m = zero64 ops \<and> bm_CVRLeadToOpp m = zero64 ops) \<and>
    (bm_Opportunities m = 0 \<longrightarrow> bm_CVROppToWon m = zero64 ops) \<and>
    (\<not> gt64 ops (zero64 ops) (zero64 ops) \<longrightarrow> bm_Cost m = zero64 ops \<longrightarrow>
       bm_ROAS m = zero64 ops)"
  using assms
  by (simp add: calculateMetricForUTM_def Let_def derivedMetrics_keeps derivedMetrics_ratios
      aggregateAds_totals countStages_totals adTotals0_def oppTotals0_def)

theorem C4_ratios_guarded_witness:
  "[sampleAdIdle] \<noteq> [] \<and> \<not> gt64 sampleOps (zero64 sampleOps) (zero64 sampleOps) \<and>
   (\<exists>m. calculateMetricForUTM sampleOps day2025 [sampleAdIdle] [sampleLead] sampleUTM = Some m \<and>
      bm_Clicks m = 0 \<and> bm_Cost m = Finite 50 \<and> bm_Leads m = 1 \<and> bm_Opportunities m = 0 \<and>
      bm_Revenue m = Finite 0 \<and>
      bm_CPC m = Finite 0 \<and>
      div64 sampleOps (bm_Cost m) (float64 sampleOps (bm_Clicks m)) = NotFinite \<and>
      bm_CPA m = Finite 50 \<and> bm_CVRLeadToOpp m = Finite 0 \<and> bm_CVROppToWon m = Finite 0 \<and>
      bm_ROAS m = Finite 0)"
proof -
  have h: "[sampleAdIdle] \<noteq> []" by simp
  have z: "\<not> gt64 sampleOps (zero64 sampleOps) (zero64 sampleOps)"
    by (simp add: sampleOps_def)
  from C4_ratios_guarded [OF h, of sampleOps day2025 "[sampleLead]" sampleUTM]
  obtain m where
    m: "calculateMetricForUTM sampleOps day2025 [sampleAdIdle] [sampleLead] sampleUTM = Some m"
    and t: "bm_Clicks m = sum_list (map ad_Clicks [sampleAdIdle])"
    "bm_Cost m = foldl (add64 sampleOps) (zero64 sampleOps) (map ad_Cost [sampleAdIdle])"
    "bm_Leads m = stageCount StageLead [sampleLead]"
    "bm_Opportunities m = stageCount StageOpportunity [sampleLead]"
    "bm_ClosedWon m = stageCount StageClosedWon [sampleLead]"
    "bm_Revenue m = foldl (add64 sampleOps) (zero64 sampleOps)
       (map opp_Amount (filter (\<lambda>opp. opp_Stage opp = StageClosedWon) [sampleLead]))"
    and r: "bm_CPC m = (if 0 < sint (bm_Clicks m)
                then div64 sampleOps (bm_Cost m) (float64 sampleOps (bm_Clicks m))
                else zero64 sampleOps)"
    "bm_CPA m = (if 0 < sint (bm_Leads m)
                then div64 sampleOps (bm_Cost m) (float64 sampleOps (bm_Leads m))
                else zero64 sampleOps)"
    "bm_CVRLeadToOpp m =
      (if 0 < sint (bm_Leads m)
       then div64 sampleOps (float64 sampleOps (bm_Opportunities m))
              (float64 sampleOps (bm_Leads m))
       else zero64 sampleOps)"
    "bm_CVROppToWon m =
      (if 0 < sint (bm_Opportunities m)
       then div64 sampleOps (float64 sampleOps (bm_ClosedWon m))
              (float64 sampleOps (bm_Opportunities m))
       else zero64 sampleOps)"
    "bm_ROAS m = (if gt64 sampleOps (bm_Cost m) (zero64 sampleOps)
                 then div64 sampleOps (bm_Revenue m) (bm_Cost m) else zero64 sampleOps)"
    by blast
  have v: "bm_Clicks m = 0" "bm_Cost m = Finite 50" "bm_Leads m = 1" "bm_Opportunities m = 0"
    "bm_ClosedWon m = 0" "bm_Revenue m = Finite 0"
    using t
    by (simp_all add: sampleAdIdle_def sampleAdA_def sampleLead_def stageCount_def StageLead_def
        StageOpportunity_def StageClosedWon_def sampleOps_def)
  have q: "bm_CPC m = Finite 0" "bm_CPA m = Finite 50" "bm_CVRLeadToOpp m = Finite 0"
    "bm_CVROppToWon m = Finite 0" "bm_ROAS m = Finite 0"
    "div64 sampleOps (bm_Cost m) (float64 sampleOps (bm_Clicks m)) = NotFinite"
    using r unfolding v by (simp_all add: sampleOps_def)
  show ?thesis using h z m v q by blast
qed

text \<open>
  The guards carry the claim: on the sample arithmetic, where a division by zero returns
  a value that is not a number, the record without clicks has the CPC zero, and the
  division that the guard skips would have returned that value.
\<close>

lemma unguarded_division_is_not_zero:
  "map_option bm_CPC
     (calculateMetricForUTM sampleOps day2025 [sampleAdIdle] [sampleLead] sampleUTM)
     = Some (Finite 0) \<and>
   div64 sampleOps (ad_Cost sampleAdIdle) (float64 sampleOps (ad_Clicks sampleAdIdle)) = NotFinite"
  by (simp add: calculateMetricForUTM_def Let_def derivedMetrics_keeps derivedMetrics_ratios
      adStep_fields adTotals0_def oppTotals0_def sampleAdIdle_def sampleAdA_def sampleOps_def)

section \<open>Properties of the worker pool\<close>

lemma appendGroup_keys: "fst ` set (appendGroup k v m) = insert k (fst ` set m)"
  by (induction k v m rule: appendGroup.induct) auto

lemma groupAds_keys: "fst ` set (groupAds m ads) = fst ` set m \<union> utmOfAd ` set ads"
  by (induction ads arbitrary: m) (auto simp: appendGroup_keys)

lemma runJobs_mem:
  "m \<in> set (runJobs ops now A B jobs) \<Longrightarrow>
     \<exists>utm\<in>set jobs.
       calculateMetricForUTM ops now (lookupGroup A utm) (lookupGroup B utm) utm = Some m"
  by (induction jobs) (auto split: option.splits)

lemma calculateMetricForUTM_utm:
  "calculateMetricForUTM ops now ads os utm = Some m \<Longrightarrow> utmOfMetric m = utm \<and> ads \<noteq> []"
  by (auto simp: calculateMetricForUTM_def Let_def derivedMetrics_keeps utmOfMetric_def
      split: if_splits)

text \<open>
  Claim C2. Every bucket that \<open>calculateMetricsWithWorkerPool\<close> returns carries the
  UTM key of at least one record of the \<open>ads\<close> input, and \<open>calculateMetricForUTM\<close>
  returns nothing for a group without ad records: a key that only opportunities carry is
  never emitted.
\<close>

theorem C2_bucket_has_ad_record:
  "calculateMetricForUTM ops now [] opportunities utm = None \<and>
   (\<forall>m\<in>set (calculateMetricsWithWorkerPool ops workerPool now ads opportunities).
      \<exists>ad\<in>set ads. utmOfAd ad = utmOfMetric m)"
proof
  show "calculateMetricForUTM ops now [] opportunities utm = None"
    by (simp add: calculateMetricForUTM_def)
next
  show "\<forall>m\<in>set (calculateMetricsWithWorkerPool ops workerPool now ads opportunities).
      \<exists>ad\<in>set ads. utmOfAd ad = utmOfMetric m"
  proof
    fix m
    assume "m \<in> set (calculateMetricsWithWorkerPool ops workerPool now ads opportunities)"
    then have "m \<in> set (runJobs ops now (groupAds [] ads) (groupOpps [] opportunities)
                 (map fst (groupAds [] ads)))"
      by (simp add: calculateMetricsWithWorkerPool_def Let_def split: if_splits)
    then obtain k where k: "k \<in> fst ` set (groupAds [] ads)"
      and c: "calculateMetricForUTM ops now (lookupGroup (groupAds [] ads) k)
                (lookupGroup (groupOpps [] opportunities) k) k = Some m"
      using runJobs_mem by fastforce
    from k have "k \<in> utmOfAd ` set ads" by (simp add: groupAds_keys)
    moreover from c have "utmOfMetric m = k" by (simp add: calculateMetricForUTM_utm)
    ultimately show "\<exists>ad\<in>set ads. utmOfAd ad = utmOfMetric m" by auto
  qed
qed

lemma sample_pool_run:
  "map utmOfMetric
     (calculateMetricsWithWorkerPool sampleOps 10 day2025 [sampleAdA] [sampleLead, sampleOrphan])
   = [sampleUTM]"
  by (simp add: calculateMetricsWithWorkerPool_def Let_def lookupGroup_def
      calculateMetricForUTM_def utmOfMetric_def derivedMetrics_keeps utmOfAd_def utmOfOpp_def
      sampleAdA_def sampleLead_def sampleOrphan_def sampleUTM_def)

theorem C2_bucket_has_ad_record_witness:
  "calculateMetricForUTM sampleOps day2025 [] [sampleLead, sampleOrphan] (utmOfOpp sampleOrphan)
     = None \<and>
   set (map utmOfMetric
     (calculateMetricsWithWorkerPool sampleOps 10 day2025 [sampleAdA] [sampleLead, sampleOrphan]))
     \<subseteq> {utmOfAd sampleAdA} \<and>
   utmOfOpp sampleOrphan \<notin> set (map utmOfMetric
     (calculateMetricsWithWorkerPool sampleOps 10 day2025 [sampleAdA] [sampleLead, sampleOrphan])) \<and>
   length (calculateMetricsWithWorkerPool sampleOps 10 day2025 [sampleAdA]
             [sampleLead, sampleOrphan]) = 1"
proof -
  let ?out = "calculateMetricsWithWorkerPool sampleOps 10 day2025 [sampleAdA]
                [sampleLead, sampleOrphan]"
  from C2_bucket_has_ad_record
    [of sampleOps day2025 "[sampleLead, sampleOrphan]" "utmOfOpp sampleOrphan" 10 "[sampleAdA]"]
  have n: "calculateMetricForUTM sampleOps day2025 [] [sampleLead, sampleOrphan]
             (utmOfOpp sampleOrphan) = None"
    and a: "\<forall>m\<in>set ?out. \<exists>ad\<in>set [sampleAdA]. utmOfAd ad = utmOfMetric m"
    by blast+
  from a have s: "set (map utmOfMetric ?out) \<subseteq> {utmOfAd sampleAdA}" by auto
  have "utmOfOpp sampleOrphan \<noteq> utmOfAd sampleAdA"
    by (simp add: utmOfOpp_def utmOfAd_def sampleOrphan_def sampleAdA_def)
  with s have "utmOfOpp sampleOrphan \<notin> set (map utmOfMetric ?out)" by blast
  moreover have "length ?out = 1"
    using sample_pool_run by (metis length_map length_Cons list.size(3) One_nat_def)
  ultimately show ?thesis using n s by blast
qed

text \<open>
  The order of the jobs, which Go does not fix, does not change which buckets are
  computed: two job lists with the same keys give the same buckets up to order.
\<close>

lemma runJobs_mset:
  "mset (runJobs ops now A B jobs) =
     {#the (calculateMetricForUTM ops now (lookupGroup A utm) (lookupGroup B utm) utm).
        utm \<in># filter_mset
          (\<lambda>utm. calculateMetricForUTM ops now (lookupGroup A utm) (lookupGroup B utm) utm
                   \<noteq> None)
          (mset jobs)#}"
  by (induction jobs) (auto split: option.splits)

lemma runJobs_order_irrelevant:
  "mset jobs = mset jobs' \<Longrightarrow>
     mset (runJobs ops now A B jobs) = mset (runJobs ops now A B jobs')"
  by (simp add: runJobs_mset)

section \<open>Properties of the transformation\<close>

lemma tryDateFormats_spec:
  "tryDateFormats parse fmts raw (d, f) =
     (case spec_ParseFlexibleDate parse fmts raw of
        Some t \<Rightarrow> (t, False)
      | None \<Rightarrow> if fmts = [] then (d, f) else (zeroTime, True))"
  by (induction fmts arbitrary: d f) (auto split: option.splits)

lemma spec_ParseFlexibleDate_None:
  "spec_ParseFlexibleDate parse fmts raw = None \<longleftrightarrow> (\<forall>l\<in>set fmts. parse l raw = None)"
  by (induction fmts) (auto split: option.splits)

lemma spec_ParseFlexibleDate_Some:
  "spec_ParseFlexibleDate parse fmts raw = Some t \<longleftrightarrow>
     (\<exists>i<length fmts. parse (fmts ! i) raw = Some t \<and> (\<forall>j<i. parse (fmts ! j) raw = None))"
proof (induction fmts)
  case Nil
  then show ?case by simp
next
  case (Cons l ls)
  show ?case
  proof (cases "parse l raw")
    case None
    have "(\<exists>i<length (l # ls). parse ((l # ls) ! i) raw = Some t \<and>
             (\<forall>j<i. parse ((l # ls) ! j) raw = None))
          \<longleftrightarrow> (\<exists>i<length ls. parse (ls ! i) raw = Some t \<and> (\<forall>j<i. parse (ls ! j) raw = None))"
      (is "?L \<longleftrightarrow> ?R")
    proof
      assume ?L
      then obtain i where i: "i < length (l # ls)" "parse ((l # ls) ! i) raw = Some t"
        "\<forall>j<i. parse ((l # ls) ! j) raw = None" by blast
      with None obtain i' where i': "i = Suc i'" by (cases i) auto
      have "\<forall>j<i'. parse (ls ! j) raw = None"
      proof (intro allI impI)
        fix j assume "j < i'"
        then have "Suc j < i" using i' by simp
        with i(3) show "parse (ls ! j) raw = None" by fastforce
      qed
      with i i' show ?R by auto
    next
      assume ?R
      then obtain i where i: "i < length ls" "parse (ls ! i) raw = Some t"
        "\<forall>j<i. parse (ls ! j) raw = None" by blast
      have "\<forall>j<Suc i. parse ((l # ls) ! j) raw = None"
        using i(3) None by (auto simp: nth_Cons split: nat.splits)
      with i show ?L by (intro exI [of _ "Suc i"]) auto
    qed
    with None Cons.IH show ?thesis by simp
  next
    case (Some u)
    have "(\<exists>i<length (l # ls). parse ((l # ls) ! i) raw = Some t \<and>
             (\<forall>j<i. parse ((l # ls) ! j) raw = None)) \<longleftrightarrow> u = t"
    proof
      assume "\<exists>i<length (l # ls). parse ((l # ls) ! i) raw = Some t \<and>
             (\<forall>j<i. parse ((l # ls) ! j) raw = None)"
      then obtain i where i: "parse ((l # ls) ! i) raw = Some t"
        "\<forall>j<i. parse ((l # ls) ! j) raw = None" by blast
      have "i = 0"
      proof (rule ccontr)
        assume "i \<noteq> 0"
        then have "parse ((l # ls) ! 0) raw = None" using i(2) by blast
        with Some show False by simp
      qed
      with i(1) Some show "u = t" by simp
    next
      assume "u = t"
      with Some show "\<exists>i<length (l # ls). parse ((l # ls) ! i) raw = Some t \<and>
             (\<forall>j<i. parse ((l # ls) ! j) raw = None)"
        by (intro exI [of _ 0]) simp
    qed
    with Some show ?thesis by simp
  qed
qed

text \<open>
  Claim C5. The loop over the layouts returns the time of the first layout, in the order
  of the list, that \<open>time.Parse\<close> accepts, and ends with an error exactly when
  \<open>time.Parse\<close> rejects the text under every layout; this holds for the list of the ad
  records and for the list of the CRM records. The list of the ad records is YYYY-MM-DD,
  YYYY/MM/DD, MM/DD/YYYY, DD/MM/YYYY, RFC3339, so a text that the first two layouts
  reject and MM/DD/YYYY accepts is read month first, whatever DD/MM/YYYY would make of it.
\<close>

theorem C5_first_layout_wins:
  "(tryDateFormats parse adDateFormats raw (zeroTime, False) = (t, False) \<longleftrightarrow>
      (\<exists>i<length adDateFormats. parse (adDateFormats ! i) raw = Some t \<and>
          (\<forall>j<i. parse (adDateFormats ! j) raw = None))) \<and>
   (snd (tryDateFormats parse adDateFormats raw (zeroTime, False)) \<longleftrightarrow>
      (\<forall>layout\<in>set adDateFormats. parse layout raw = None)) \<and>
   (tryDateFormats parse crmDateFormats raw (zeroTime, False) = (t, False) \<longleftrightarrow>
      (\<exists>i<length crmDateFormats. parse (crmDateFormats ! i) raw = Some t \<and>
          (\<forall>j<i. parse (crmDateFormats ! j) raw = None))) \<and>
   (snd (tryDateFormats parse crmDateFormats raw (zeroTime, False)) \<longleftrightarrow>
      (\<forall>layout\<in>set crmDateFormats. parse layout raw = None)) \<and>
   adDateFormats = [''2006-01-02'', ''2006/01/02'', ''01/02/2006'', ''02/01/2006'',
                    ''2006-01-02T15:04:05Z07:00''] \<and>
   (parse ''2006-01-02'' raw = None \<and> parse ''2006/01/02'' raw = None \<and>
    parse ''01/02/2006'' raw = Some t
      \<longrightarrow> tryDateFormats parse adDateFormats raw (zeroTime, False) = (t, False))"
proof -
  have ne: "adDateFormats \<noteq> []" "crmDateFormats \<noteq> []"
    by (simp_all add: adDateFormats_def crmDateFormats_def)
  have a: "tryDateFormats parse fmts raw (zeroTime, False) = (t, False) \<longleftrightarrow>
      (\<exists>i<length fmts. parse (fmts ! i) raw = Some t \<and> (\<forall>j<i. parse (fmts ! j) raw = None))"
    if "fmts \<noteq> []" for fmts
  proof (cases "spec_ParseFlexibleDate parse fmts raw")
    case None
    then show ?thesis
      using that spec_ParseFlexibleDate_Some [of parse fmts raw t]
      by (simp add: tryDateFormats_spec)
  next
    case (Some u)
    then show ?thesis
      using spec_ParseFlexibleDate_Some [of parse fmts raw t]
      by (simp add: tryDateFormats_spec)
  qed
  have b: "snd (tryDateFormats parse fmts raw (zeroTime, False)) \<longleftrightarrow>
      (\<forall>layout\<in>set fmts. parse layout raw = None)"
    if "fmts \<noteq> []" for fmts
  proof (cases "spec_ParseFlexibleDate parse fmts raw")
    case None
    then show ?thesis
      using that spec_ParseFlexibleDate_None [of parse fmts raw]
      by (simp add: tryDateFormats_spec)
  next
    case (Some u)
    then show ?thesis
      using spec_ParseFlexibleDate_None [of parse fmts raw]
      by (simp add: tryDateFormats_spec)
  qed
  have c: "parse ''2006-01-02'' raw = None \<and> parse ''2006/01/02'' raw = None \<and>
    parse ''01/02/2006'' raw = Some t
      \<longrightarrow> tryDateFormats parse adDateFormats raw (zeroTime, False) = (t, False)"
    by (simp add: adDateFormats_def)
  show ?thesis
    using a [OF ne(1)] b [OF ne(1)] a [OF ne(2)] b [OF ne(2)] c
    by (simp add: adDateFormats_def RFC3339_def)
qed

theorem C5_first_layout_wins_witness:
  "sampleParse ''2006-01-02'' ''03/04/2025'' = None \<and>
   sampleParse ''2006/01/02'' ''03/04/2025'' = None \<and>
   sampleParse ''01/02/2006'' ''03/04/2025'' = Some (utcDay 739313) \<and>
   sampleParse ''02/01/2006'' ''03/04/2025'' = Some (utcDay 739343) \<and>
   tryDateFormats sampleParse adDateFormats ''03/04/2025'' (zeroTime, False)
     = (utcDay 739313, False)"
  using C5_first_layout_wins [of sampleParse "''03/04/2025''" "utcDay 739313"]
  by (simp add: sampleParse_def)

lemma tryDateFormats_ad:
  "tryDateFormats parse adDateFormats raw (zeroTime, False) =
     (case spec_ParseFlexibleDate parse adDateFormats raw of
        Some t \<Rightarrow> (t, False) | None \<Rightarrow> (zeroTime, True))"
  by (simp add: tryDateFormats_spec adDateFormats_def)

lemma normalizeAd_spec:
  "normalizeAd now ad date =
     \<lparr>ad_Date = date, ad_CampaignID = raw_CampaignID ad,
      ad_Channel = raw_Channel ad, ad_Clicks = raw_Clicks ad,
      ad_Impressions = raw_Impressions ad, ad_Cost = raw_Cost ad,
      ad_UTMCampaign = spec_NormalizeUTM (raw_UTMCampaign ad),
      ad_UTMSource = spec_NormalizeUTM (raw_UTMSource ad),
      ad_UTMMedium = spec_NormalizeUTM (raw_UTMMedium ad),
      ad_ProcessedAt = now\<rparr>"
  by (simp add: normalizeAd_def spec_NormalizeUTM_def Let_def)

lemma processAdsLoop_spec:
  "processAdsLoop parse now since (processed, failures) ads =
     (processed @ List.map_filter emitted (map (spec_TransformAd parse now since) ads),
      failures((''ads'', ''date_parse'') := failures (''ads'', ''date_parse'') +
        length (filter (\<lambda>ad. spec_TransformAd parse now since ad = DroppedUnparsed) ads)))"
proof (induction ads arbitrary: processed failures)
  case Nil
  then show ?case by (simp add: List.map_filter_simps)
next
  case (Cons ad rest)
  show ?case
  proof (cases "spec_ParseFlexibleDate parse adDateFormats (raw_Date ad)")
    case None
    then have o: "spec_TransformAd parse now since ad = DroppedUnparsed"
      by (simp add: spec_TransformAd_def)
    show ?thesis
      using None o Cons.IH
      by (auto simp add: tryDateFormats_ad List.map_filter_simps RecordETLRecordFailure_def
          fun_eq_iff)
  next
    case (Some date)
    show ?thesis
    proof (cases "case since of None \<Rightarrow> False | Some s \<Rightarrow> Before date s")
      case True
      then have o: "spec_TransformAd parse now since ad = DroppedBeforeSince"
        using Some by (cases since) (simp_all add: spec_TransformAd_def)
      show ?thesis
        using Some True o Cons.IH
        by (simp add: tryDateFormats_ad List.map_filter_simps)
    next
      case False
      then have o: "spec_TransformAd parse now since ad = Emitted (normalizeAd now ad date)"
        using Some by (cases since) (simp_all add: spec_TransformAd_def normalizeAd_spec)
      show ?thesis
        using Some False o Cons.IH
        by (simp add: tryDateFormats_ad List.map_filter_simps)
    qed
  qed
qed

text \<open>
  Claim C6. \<open>processAdsData\<close> treats every raw record on its own, as
  \<^const>\<open>spec_TransformAd\<close> says: the processed records are, in order, the outcomes of
  the records that are emitted (the UTM fields normalised, the other fields unchanged);
  the counter of label \<open>(ads, date_parse)\<close> grows by the number of records whose date
  no layout parses, and no other counter changes, so a record dropped for being before
  \<open>since\<close> counts nowhere.
\<close>

theorem C6_transform_per_record:
  "processAdsData parse now failures ads since =
     (List.map_filter emitted (map (spec_TransformAd parse now since) ads),
      failures((''ads'', ''date_parse'') := failures (''ads'', ''date_parse'') +
        length (filter (\<lambda>ad. spec_TransformAd parse now since ad = DroppedUnparsed) ads)))"
  by (simp add: processAdsData_def processAdsLoop_spec)

theorem C6_transform_per_record_witness:
  "processAdsData sampleParse day2025 (\<lambda>labels. 0)
     [sampleRaw ''not-a-date'' ''sale'', sampleRaw ''2025-01-01'' [],
      sampleRaw ''03/04/2025'' ''sale'']
     (Some (utcDay 739300))
   = ([\<lparr>ad_Date = utcDay 739313, ad_CampaignID = ''cmp-1'', ad_Channel = ''google'',
        ad_Clicks = 100, ad_Impressions = 1000, ad_Cost = Finite 50,
        ad_UTMCampaign = ''sale'', ad_UTMSource = ''unknown'', ad_UTMMedium = ''unknown'',
        ad_ProcessedAt = day2025\<rparr>],
      (\<lambda>labels. 0)((''ads'', ''date_parse'') := 1))"
  using C6_transform_per_record [of sampleParse day2025 "\<lambda>labels. 0"
      "[sampleRaw ''not-a-date'' ''sale'', sampleRaw ''2025-01-01'' [],
        sampleRaw ''03/04/2025'' ''sale'']" "Some (utcDay 739300)"]
  by (simp add: spec_TransformAd_def adDateFormats_def RFC3339_def sampleParse_def
      sampleRaw_def spec_NormalizeUTM_def List.map_filter_simps day2025_def utcDay_def
      nsPerDay_def Before_def)

section \<open>Properties of the range scan\<close>

lemma nsPerDay_pos: "0 < nsPerDay"
  by (simp add: nsPerDay_def)

lemma dateKey_AddDate: "dateKey (AddDate t n) = dateKey t + n"
proof -
  have "(instant t + n * nsPerDay + zoneOffset t) div nsPerDay =
          (instant t + zoneOffset t + n * nsPerDay) div nsPerDay"
    by (simp add: algebra_simps)
  also have "\<dots> = (instant t + zoneOffset t) div nsPerDay + n"
    using nsPerDay_pos by simp
  finally show ?thesis by (simp add: dateKey_def AddDate_def)
qed

text \<open>Of two times of one location, the later one has the later day, or the same.\<close>

lemma dateKey_mono:
  "zoneOffset a = zoneOffset b \<Longrightarrow> instant a \<le> instant b \<Longrightarrow> dateKey a \<le> dateKey b"
  using nsPerDay_pos by (simp add: dateKey_def zdiv_mono1)

lemma scanDays_concat:
  "scanDays data date to result = result @ concat (map (lookupDay data) (daysVisited date to))"
proof (induction data date to result rule: scanDays.induct)
  case (1 data date to result)
  show ?case
  proof (cases "After date to")
    case True
    then show ?thesis
      by (subst scanDays.simps, subst daysVisited.simps) simp
  next
    case False
    have l: "(case data (dateKey date) of None \<Rightarrow> result | Some found \<Rightarrow> result @ found) =
               result @ lookupDay data (dateKey date)"
      by (simp add: lookupDay_def split: option.splits)
    show ?thesis
      using "1.IH" [OF False] False
      by (subst scanDays.simps, subst daysVisited.simps) (simp add: l)
  qed
qed

text \<open>
  The keys visited are the days \<open>dateKey date + i\<close> for which \<open>date\<close> plus \<open>i\<close> days is
  not after \<open>to\<close>.
\<close>

lemma daysVisited_set:
  "set (daysVisited date to) =
     {k. dateKey date \<le> k \<and> \<not> After (AddDate date (k - dateKey date)) to}"
proof (induction date to rule: daysVisited.induct)
  case (1 date to)
  show ?case
  proof (cases "After date to")
    case True
    have "\<not> (dateKey date \<le> k \<and> \<not> After (AddDate date (k - dateKey date)) to)" for k
    proof
      assume a: "dateKey date \<le> k \<and> \<not> After (AddDate date (k - dateKey date)) to"
      then have "0 \<le> (k - dateKey date) * nsPerDay" using nsPerDay_pos by simp
      with a True show False by (simp add: AddDate_def After_def)
    qed
    with True show ?thesis by (subst daysVisited.simps) simp
  next
    case False
    have e: "AddDate (AddDate date 1) (k - (dateKey date + 1)) = AddDate date (k - dateKey date)"
      for k
      by (simp add: AddDate_def algebra_simps)
    have z: "AddDate date 0 = date"
      by (simp add: AddDate_def)
    have "{k. dateKey date \<le> k \<and> \<not> After (AddDate date (k - dateKey date)) to} =
          insert (dateKey date)
            {k. dateKey (AddDate date 1) \<le> k \<and>
                \<not> After (AddDate (AddDate date 1) (k - dateKey (AddDate date 1))) to}"
      unfolding dateKey_AddDate e using False by (auto simp: z)
    with False "1.IH" [OF False] show ?thesis
      by (subst daysVisited.simps) simp
  qed
qed

lemma daysVisited_distinct: "distinct (daysVisited date to)"
proof (induction date to rule: daysVisited.induct)
  case (1 date to)
  show ?case
  proof (cases "After date to")
    case True
    then show ?thesis by (subst daysVisited.simps) simp
  next
    case False
    have "dateKey date \<notin> set (daysVisited (AddDate date 1) to)"
      by (simp add: daysVisited_set dateKey_AddDate)
    with False "1.IH" [OF False] show ?thesis
      by (subst daysVisited.simps) simp
  qed
qed

lemma concat_by_key:
  "distinct ks \<Longrightarrow>
     mset (concat (map (\<lambda>k. filter (\<lambda>x. key x = k) xs) ks)) =
     mset (filter (\<lambda>x. key x \<in> set ks) xs)"
proof (induction ks)
  case Nil
  then show ?case by simp
next
  case (Cons k ks)
  have "mset (filter (\<lambda>x. key x \<in> set (k # ks)) xs) =
        mset (filter (\<lambda>x. key x = k) xs) + mset (filter (\<lambda>x. key x \<in> set ks) xs)"
    using Cons.prems by (induction xs) auto
  with Cons show ?case by simp
qed

lemma lookupDay_appendAt:
  "lookupDay (appendAt data k v) k' = (if k' = k then lookupDay data k @ [v] else lookupDay data k')"
  by (simp add: lookupDay_def appendAt_def)

lemma lookupDay_MetricsRepository_Store:
  "lookupDay (MetricsRepository_Store data ms) k =
     lookupDay data k @ filter (\<lambda>m. dateKey (bm_Date m) = k) ms"
  by (induction ms arbitrary: data) (auto simp: lookupDay_appendAt)

lemma lookupDay_AdRepository_Store:
  "lookupDay (AdRepository_Store data ads) k =
     lookupDay data k @ filter (\<lambda>ad. dateKey (ad_Date ad) = k) ads"
  by (induction ads arbitrary: data) (auto simp: lookupDay_appendAt)

lemma lookupDay_empty: "lookupDay Map.empty k = []"
  by (simp add: lookupDay_def)

lemma scan_MetricsRepository_Store:
  "mset (scanDays (MetricsRepository_Store Map.empty ms) from to []) =
     mset (filter (\<lambda>m. dateKey (bm_Date m) \<in> set (daysVisited from to)) ms)"
proof -
  have "lookupDay (MetricsRepository_Store Map.empty ms) =
          (\<lambda>k. filter (\<lambda>m. dateKey (bm_Date m) = k) ms)"
    by (rule ext) (simp add: lookupDay_MetricsRepository_Store lookupDay_empty)
  then show ?thesis
    using concat_by_key [OF daysVisited_distinct, of "\<lambda>m. dateKey (bm_Date m)" ms "from" "to"]
    by (simp add: scanDays_concat del: mset_filter)
qed

lemma scan_AdRepository_Store:
  "mset (AdRepository_GetByDateRange (AdRepository_Store Map.empty ads) from to) =
     mset (filter (\<lambda>ad. dateKey (ad_Date ad) \<in> set (daysVisited from to)) ads)"
proof -
  have "lookupDay (AdRepository_Store Map.empty ads) =
          (\<lambda>k. filter (\<lambda>ad. dateKey (ad_Date ad) = k) ads)"
    by (rule ext) (simp add: lookupDay_AdRepository_Store lookupDay_empty)
  then show ?thesis
    using concat_by_key [OF daysVisited_distinct, of "\<lambda>ad. dateKey (ad_Date ad)" ads "from" "to"]
    by (simp add: AdRepository_GetByDateRange_def scanDays_concat del: mset_filter)
qed

section \<open>Properties of the metrics query\<close>

lemma GetByFilter_eq:
  "GetByFilter now1 now2 data f =
     (let xs = sortedMatches now1 now2 data f;
          total = int (length xs);
          start = min total (sint (effectiveOffset f));
          end = min total (sint (effectiveOffset f + effectiveLimit f))
      in Inr \<lparr>resp_Data = take (nat (end - start)) (drop (nat start) xs), resp_Total = total,
              resp_Limit = effectiveLimit f, resp_Offset = effectiveOffset f,
              resp_HasMore = (end < total)\<rparr>)"
proof -
  define xs where "xs = sortedMatches now1 now2 data f"
  define total where "total = int (length xs)"
  define start where "start = (if total < sint (effectiveOffset f) then total
                               else sint (effectiveOffset f))"
  define end' where "end' = (if total < sint (effectiveOffset f + effectiveLimit f) then total
                             else sint (effectiveOffset f + effectiveLimit f))"
  have g: "GetByFilter now1 now2 data f =
     (case (if start < end' then goSlice xs start end' else Inr []) of
        Inl p \<Rightarrow> Inl p
      | Inr page \<Rightarrow> Inr \<lparr>resp_Data = page, resp_Total = total,
              resp_Limit = effectiveLimit f, resp_Offset = effectiveOffset f,
              resp_HasMore = (end' < total)\<rparr>)"
    unfolding GetByFilter_def Let_def xs_def total_def start_def end'_def sortedMatches_def
      effectiveLimit_def effectiveOffset_def ..
  have "0 \<le> sint (effectiveOffset f)"
    by (simp add: effectiveOffset_def)
  then have b: "0 \<le> start" "end' \<le> total"
    by (simp_all add: start_def end'_def total_def)
  have p: "(if start < end' then goSlice xs start end' else Inr []) =
     Inr (take (nat (end' - start)) (drop (nat start) xs))"
    using b by (simp add: goSlice_def total_def)
  have m: "start = min total (sint (effectiveOffset f))"
    "end' = min total (sint (effectiveOffset f + effectiveLimit f))"
    by (simp_all add: start_def end'_def min_def)
  show ?thesis
    unfolding g p Let_def xs_def [symmetric] total_def [symmetric] m [symmetric] by simp
qed

lemma matchesFilter_paging:
  "matchesFilter m (f\<lparr>f_Limit := l\<rparr>) = matchesFilter m f"
  "matchesFilter m (f\<lparr>f_Offset := k\<rparr>) = matchesFilter m f"
  by (simp_all add: matchesFilter_def)

lemma sortedMatches_paging:
  "sortedMatches now1 now2 data (f\<lparr>f_Limit := l\<rparr>) = sortedMatches now1 now2 data f"
  "sortedMatches now1 now2 data (f\<lparr>f_Offset := k\<rparr>) = sortedMatches now1 now2 data f"
  by (simp_all add: sortedMatches_def matchesFilter_paging)

text \<open>
  Claim C10. A limit that is zero or negative is treated as the default limit 100 and
  an offset that is zero or negative as 0: the answer is the answer to the query with
  the default written out. \<open>GetByFilter\<close> answers every filter, so no value of the two
  fields makes the slice expression panic, and with both fields non-positive the page is
  the first 100 matching records, which is empty only when nothing matches.
\<close>

theorem C10_non_positive_paging:
  "(sint (f_Limit f) \<le> 0 \<longrightarrow>
      GetByFilter now1 now2 data f = GetByFilter now1 now2 data (f\<lparr>f_Limit := 100\<rparr>)) \<and>
   (sint (f_Offset f) \<le> 0 \<longrightarrow>
      GetByFilter now1 now2 data f = GetByFilter now1 now2 data (f\<lparr>f_Offset := 0\<rparr>)) \<and>
   (\<exists>r. GetByFilter now1 now2 data f = Inr r \<and>
      (sint (f_Limit f) \<le> 0 \<longrightarrow> resp_Limit r = 100) \<and>
      (sint (f_Offset f) \<le> 0 \<longrightarrow> resp_Offset r = 0) \<and>
      (sint (f_Limit f) \<le> 0 \<and> sint (f_Offset f) \<le> 0 \<longrightarrow>
         resp_Data r = take 100 (sortedMatches now1 now2 data f)))"
proof (intro conjI impI)
  assume "sint (f_Limit f) \<le> 0"
  then show "GetByFilter now1 now2 data f = GetByFilter now1 now2 data (f\<lparr>f_Limit := 100\<rparr>)"
    by (simp add: GetByFilter_eq sortedMatches_paging effectiveLimit_def effectiveOffset_def)
next
  assume "sint (f_Offset f) \<le> 0"
  then show "GetByFilter now1 now2 data f = GetByFilter now1 now2 data (f\<lparr>f_Offset := 0\<rparr>)"
    by (simp add: GetByFilter_eq sortedMatches_paging effectiveLimit_def effectiveOffset_def)
next
  show "\<exists>r. GetByFilter now1 now2 data f = Inr r \<and>
      (sint (f_Limit f) \<le> 0 \<longrightarrow> resp_Limit r = 100) \<and>
      (sint (f_Offset f) \<le> 0 \<longrightarrow> resp_Offset r = 0) \<and>
      (sint (f_Limit f) \<le> 0 \<and> sint (f_Offset f) \<le> 0 \<longrightarrow>
         resp_Data r = take 100 (sortedMatches now1 now2 data f))"
    by (auto simp: GetByFilter_eq Let_def effectiveLimit_def effectiveOffset_def min_def
        take_all_iff)
qed

lemma dateKey_utcDay: "dateKey (utcDay d) = d"
  by (simp add: dateKey_def utcDay_def nsPerDay_def)

lemma dateKey_day2025: "dateKey day2025 = 739251"
  by (simp add: day2025_def dateKey_utcDay)

lemma scan_one_day:
  "scanDays data day2025 day2025 [] = (case data 739251 of None \<Rightarrow> [] | Some ms \<Rightarrow> ms)"
proof -
  have "scanDays data day2025 day2025 [] =
          scanDays data (AddDate day2025 1) day2025
            (case data (dateKey day2025) of None \<Rightarrow> [] | Some ms \<Rightarrow> ms)"
    by (subst scanDays.simps) (simp add: After_def split: option.splits)
  also have "\<dots> = (case data (dateKey day2025) of None \<Rightarrow> [] | Some ms \<Rightarrow> ms)"
    by (subst scanDays.simps) (simp add: AddDate_def nsPerDay_def After_def)
  finally show ?thesis by (simp add: dateKey_day2025)
qed

lemma sample_keys:
  "dateKey (bm_Date sampleMetric) = 739251" "dateKey (bm_Date futureMetric) = 739281"
  "dateKey (bm_Date eastMetric) = 739252" "dateKey (bm_Date westMetric) = 739251"
  "dateKey noon2025 = 739251" "dateKey eastNow = 739252"
  by (simp_all add: sampleMetric_def futureMetric_def eastMetric_def westMetric_def
      noon2025_def eastNow_def dateKey_def AddDate_def day2025_def utcDay_def nsPerDay_def)

lemma sample_scan: "scanDays sampleStore day2025 day2025 [] = [sampleMetric]"
  by (simp add: scan_one_day sampleStore_def appendAt_def sample_keys)

lemma sample_sortedMatches:
  "sortedMatches now1 now2 sampleStore (sampleFilter (Some day2025) (Some day2025) l k)
     = [sampleMetric]"
  by (simp add: sortedMatches_def sampleFilter_def sample_scan matchesFilter_def)

theorem C10_non_positive_paging_witness:
  "sint (- 5 :: go_int) \<le> 0 \<and> sint (- 3 :: go_int) \<le> 0 \<and>
   GetByFilter day2025 day2025 sampleStore
     (sampleFilter (Some day2025) (Some day2025) (- 5) (- 3))
   = Inr \<lparr>resp_Data = [sampleMetric], resp_Total = 1, resp_Limit = 100, resp_Offset = 0,
          resp_HasMore = False\<rparr>"
proof -
  let ?data = sampleStore
  let ?f = "sampleFilter (Some day2025) (Some day2025) (- 5) (- 3)"
  have l: "sint (f_Limit ?f) \<le> 0" and k: "sint (f_Offset ?f) \<le> 0"
    by (simp_all add: sampleFilter_def)
  have s: "sortedMatches day2025 day2025 ?data ?f = [sampleMetric]"
    by (rule sample_sortedMatches)
  from C10_non_positive_paging [of ?f day2025 day2025 ?data] l k
  obtain r where r: "GetByFilter day2025 day2025 ?data ?f = Inr r" "resp_Limit r = 100"
    "resp_Offset r = 0" "resp_Data r = take 100 (sortedMatches day2025 day2025 ?data ?f)"
    by blast
  have "GetByFilter day2025 day2025 ?data ?f = Inr \<lparr>resp_Data = [sampleMetric], resp_Total = 1,
          resp_Limit = 100, resp_Offset = 0, resp_HasMore = False\<rparr>"
    using l k by (simp add: GetByFilter_eq s effectiveLimit_def effectiveOffset_def)
  with r l k show ?thesis by (simp add: sampleFilter_def)
qed

text \<open>
  Claim C3 fails at the edge of \<open>int\<close>. With the largest offset and the default limit
  the sum \<open>offset + limit\<close> wraps around to a negative number, \<open>end\<close> stays below
  \<open>total\<close>, and the response reports more records after an empty page although
  \<open>offset + limit\<close>, as a sum of integers, is not below \<open>total\<close>.
\<close>

theorem C3_offset_overflow:
  "GetByFilter day2025 day2025 sampleStore
     (sampleFilter (Some day2025) (Some day2025) 0 9223372036854775807)
   = Inr \<lparr>resp_Data = [], resp_Total = 1, resp_Limit = 100,
          resp_Offset = 9223372036854775807, resp_HasMore = True\<rparr> \<and>
   \<not> (sint (9223372036854775807 :: go_int) + sint (100 :: go_int) < 1)"
proof -
  let ?data = sampleStore
  let ?f = "sampleFilter (Some day2025) (Some day2025) 0 9223372036854775807"
  have s: "sortedMatches day2025 day2025 ?data ?f = [sampleMetric]"
    by (rule sample_sortedMatches)
  have e: "effectiveLimit ?f = 100" "effectiveOffset ?f = 9223372036854775807"
    by (simp_all add: effectiveLimit_def effectiveOffset_def sampleFilter_def)
  show ?thesis
    by (simp add: GetByFilter_eq s e)
qed

lemma MetricsRepository_Store_append:
  "MetricsRepository_Store (MetricsRepository_Store data xs) ys =
     MetricsRepository_Store data (xs @ ys)"
  by (induction xs arbitrary: data) auto


text \<open>
  When the second reading is the first or follows it by less than a day, the days looked
  up are the 366 days that end with the day of the first reading.
\<close>

lemma daysVisited_default_window:
  assumes "instant now1 \<le> instant now2" and "instant now2 < instant now1 + nsPerDay"
  shows "set (daysVisited (AddDate now1 (- 365)) now2) = {dateKey now1 - 365 .. dateKey now1}"
proof -
  have k: "dateKey (AddDate now1 (- 365)) = dateKey now1 - 365"
    by (simp add: dateKey_AddDate)
  have e: "instant (AddDate (AddDate now1 (- 365)) (k - (dateKey now1 - 365))) =
             instant now1 + (k - dateKey now1) * nsPerDay" for k
    by (simp add: AddDate_def algebra_simps)
  have c: "instant now1 + (k - dateKey now1) * nsPerDay \<le> instant now2 \<longleftrightarrow> k \<le> dateKey now1"
    for k
  proof
    assume a: "instant now1 + (k - dateKey now1) * nsPerDay \<le> instant now2"
    show "k \<le> dateKey now1"
    proof (rule ccontr)
      assume "\<not> k \<le> dateKey now1"
      then have "1 \<le> k - dateKey now1" by simp
      then have "1 * nsPerDay \<le> (k - dateKey now1) * nsPerDay"
        using nsPerDay_pos by (intro mult_right_mono) simp_all
      with a assms(2) show False by simp
    qed
  next
    assume "k \<le> dateKey now1"
    then have "(k - dateKey now1) * nsPerDay \<le> 0"
      using nsPerDay_pos by (simp add: mult_le_0_iff)
    with assms(1) show "instant now1 + (k - dateKey now1) * nsPerDay \<le> instant now2" by simp
  qed
  show ?thesis
    unfolding daysVisited_set k After_def not_less e c by auto
qed


lemma sortedMatches_scan:
  "mset (sortedMatches now1 now2 (MetricsRepository_Store Map.empty ms) f) =
     mset (filter (\<lambda>m. matchesFilter m f \<and>
        dateKey (bm_Date m) \<in> set (daysVisited
          (case f_From f of None \<Rightarrow> AddDate now1 (- 365) | Some t \<Rightarrow> t)
          (case f_To f of None \<Rightarrow> now2 | Some t \<Rightarrow> t))) ms)"
proof -
  let ?from = "case f_From f of None \<Rightarrow> AddDate now1 (- 365) | Some t \<Rightarrow> t"
  let ?to = "case f_To f of None \<Rightarrow> now2 | Some t \<Rightarrow> t"
  have "mset (sortedMatches now1 now2 (MetricsRepository_Store Map.empty ms) f) =
          filter_mset (\<lambda>m. matchesFilter m f)
            (mset (scanDays (MetricsRepository_Store Map.empty ms) ?from ?to []))"
    by (simp add: sortedMatches_def)
  also have "\<dots> = filter_mset (\<lambda>m. matchesFilter m f)
            (mset (filter (\<lambda>m. dateKey (bm_Date m) \<in> set (daysVisited ?from ?to)) ms))"
    by (simp only: scan_MetricsRepository_Store)
  also have "\<dots> = mset (filter (\<lambda>m. matchesFilter m f \<and>
        dateKey (bm_Date m) \<in> set (daysVisited ?from ?to)) ms)"
    by (auto simp: filter_filter_mset intro!: filter_mset_cong)
  finally show ?thesis .
qed

lemma sortedMatches_default_window:
  assumes "f_From f = None" and "f_To f = None"
    and "instant now1 \<le> instant now2" and "instant now2 < instant now1 + nsPerDay"
  shows "mset (sortedMatches now1 now2 (MetricsRepository_Store Map.empty ms) f) =
           mset (filter (\<lambda>m. matchesFilter m f \<and> dateKey now1 - 365 \<le> dateKey (bm_Date m) \<and>
                              dateKey (bm_Date m) \<le> dateKey now1) ms)"
  unfolding sortedMatches_scan using assms(1,2)
  by (simp add: daysVisited_default_window [OF assms(3,4)])



text \<open>
  The window is one of day keys, not of instants, and each key is read in the location
  of its time value. The repository holds four buckets: one dated January 1, 2025, one
  dated January 2, 00:00 UTC, one dated January 1, 23:30 on a clock two hours west of UTC
  and one dated January 31. At noon UTC of January 1 a process on UTC time is answered
  with the first and the third, although the instant of the third is January 2, 01:30
  UTC; at the same instant a process 14 hours east of UTC, where it is January 2, is
  answered with the second as well, whose instant is 12 hours ahead.
\<close>

lemma sample_matches:
  "matchesFilter m (sampleFilter None None 0 0)"
  by (simp add: matchesFilter_def sampleFilter_def)

lemma query_on_utc_clock:
  "\<exists>r. GetByFilter noon2025 noon2025 zoneStore (sampleFilter None None 0 0) = Inr r \<and>
     resp_Total r = 2 \<and> set (resp_Data r) = {sampleMetric, westMetric} \<and>
     After (bm_Date westMetric) noon2025 \<and>
     instant noon2025 div nsPerDay < instant (bm_Date westMetric) div nsPerDay"
proof -
  let ?f = "sampleFilter None None 0 0"
  let ?xs = "sortedMatches noon2025 noon2025 zoneStore ?f"
  have h: "f_From ?f = None" "f_To ?f = None"
    by (simp_all add: sampleFilter_def)
  have "mset ?xs = {#sampleMetric, westMetric#}"
    unfolding zoneStore_def
    by (subst sortedMatches_default_window [OF h])
      (simp_all add: nsPerDay_pos sample_matches sample_keys)
  then have l: "length ?xs = 2" and s: "set ?xs = {sampleMetric, westMetric}"
    using mset_eq_length [of ?xs "[sampleMetric, westMetric]"]
      mset_eq_setD [of ?xs "[sampleMetric, westMetric]"] by simp_all
  have e: "effectiveLimit ?f = 100" "effectiveOffset ?f = 0"
    by (simp_all add: effectiveLimit_def effectiveOffset_def sampleFilter_def)
  have a: "After (bm_Date westMetric) noon2025"
    "instant noon2025 div nsPerDay < instant (bm_Date westMetric) div nsPerDay"
    by (simp_all add: After_def westMetric_def noon2025_def nsPerDay_def)
  show ?thesis
    using l s a by (simp add: GetByFilter_eq Let_def e)
qed

lemma query_on_eastern_clock:
  "\<exists>r. GetByFilter eastNow eastNow zoneStore (sampleFilter None None 0 0) = Inr r \<and>
     resp_Total r = 3 \<and> set (resp_Data r) = {sampleMetric, eastMetric, westMetric} \<and>
     After (bm_Date eastMetric) eastNow \<and> instant eastNow = instant noon2025"
proof -
  let ?f = "sampleFilter None None 0 0"
  let ?xs = "sortedMatches eastNow eastNow zoneStore ?f"
  have h: "f_From ?f = None" "f_To ?f = None"
    by (simp_all add: sampleFilter_def)
  have "mset ?xs = {#sampleMetric, eastMetric, westMetric#}"
    unfolding zoneStore_def
    by (subst sortedMatches_default_window [OF h])
      (simp_all add: nsPerDay_pos sample_matches sample_keys)
  then have l: "length ?xs = 3" and s: "set ?xs = {sampleMetric, eastMetric, westMetric}"
    using mset_eq_length [of ?xs "[sampleMetric, eastMetric, westMetric]"]
      mset_eq_setD [of ?xs "[sampleMetric, eastMetric, westMetric]"] by simp_all
  have e: "effectiveLimit ?f = 100" "effectiveOffset ?f = 0"
    by (simp_all add: effectiveLimit_def effectiveOffset_def sampleFilter_def)
  have a: "After (bm_Date eastMetric) eastNow" "instant eastNow = instant noon2025"
    by (simp_all add: After_def eastMetric_def eastNow_def noon2025_def AddDate_def
        day2025_def utcDay_def nsPerDay_def)
  show ?thesis
    using l s a by (simp add: GetByFilter_eq Let_def e)
qed

section \<open>Properties of the export\<close>

text \<open>
  Claim C8. For a date under which the repository holds no metric, \<open>ExportMetrics\<close>
  returns the error \<open>no metrics found for date ...\<close> and makes no call to the export
  client. The message differs from both wrapped failures, whatever error they wrap, and
  \<open>ExportMetrics\<close> returns it in no other situation.
\<close>

theorem C8_export_no_data:
  assumes "lookupDay data (dateKey date) = []"
  shows "ExportMetrics fmt export data date =
           (Some (''no metrics found for date '' @ fmt date), []) \<and>
    (\<forall>err. ''no metrics found for date '' @ fmt date \<noteq>
            ''failed to get metrics for export: '' @ err) \<and>
    (\<forall>err. ''no metrics found for date '' @ fmt date \<noteq> ''failed to export metrics: '' @ err) \<and>
    (\<forall>data' date' text.
       fst (ExportMetrics fmt export data' date') = Some (''no metrics found for date '' @ text)
         \<longrightarrow> lookupDay data' (dateKey date') = [])"
  using assms
  by (auto simp: ExportMetrics_def MetricsRepository_GetByDate_def lookupDay_def Let_def
      split: option.splits)

theorem C8_export_no_data_witness:
  "lookupDay (Map.empty :: sampleFloat BusinessMetrics store) (dateKey day2025) = [] \<and>
   ExportMetrics (\<lambda>t. ''2025-01-01'') (\<lambda>rows t. None)
     (Map.empty :: sampleFloat BusinessMetrics store) day2025 =
     (Some ''no metrics found for date 2025-01-01'', [])"
  using C8_export_no_data [of "Map.empty :: sampleFloat BusinessMetrics store" day2025
      "\<lambda>t. ''2025-01-01''" "\<lambda>rows t. None"]
  by (simp add: lookupDay_def)

section \<open>The round trip through the ad repository\<close>

lemma daysVisited_sample: "daysVisited noon2025 morning2025 = [739251, 739252]"
proof -
  have a: "\<not> After noon2025 morning2025" "\<not> After (AddDate noon2025 1) morning2025"
    "After (AddDate (AddDate noon2025 1) 1) morning2025"
    by (simp_all add: After_def morning2025_def noon2025_def AddDate_def nsPerDay_def)
  have k: "dateKey noon2025 = 739251" "dateKey (AddDate noon2025 1) = 739252"
    by (simp_all add: dateKey_def noon2025_def AddDate_def nsPerDay_def)
  have "daysVisited noon2025 morning2025 =
          dateKey noon2025 # dateKey (AddDate noon2025 1) #
            daysVisited (AddDate (AddDate noon2025 1) 1) morning2025"
    using a(1,2) by (subst daysVisited.simps, subst daysVisited.simps) simp
  also have "daysVisited (AddDate (AddDate noon2025 1) 1) morning2025 = []"
    using a(3) by (subst daysVisited.simps) simp
  finally show ?thesis by (simp add: k)
qed

text \<open>
  Claim C7 fails when the time of day of \<open>from\<close> is after the time of day of \<open>to\<close>.
  The loop of \<open>GetByDateRange\<close> steps from \<open>from\<close> by whole days and stops at the
  first step after \<open>to\<close>, so it never looks up the day of \<open>to\<close>: a record stored
  for January 3, 00:00 is not returned by the scan from January 1, 12:00 to January 3,
  06:00, an interval that covers its date. The three times are UTC.
\<close>

theorem C7_range_scan_misses_last_day:
  "instant noon2025 \<le> instant (ad_Date sampleAdC) \<and>
   instant (ad_Date sampleAdC) \<le> instant morning2025 \<and>
   zoneOffset noon2025 = 0 \<and> zoneOffset (ad_Date sampleAdC) = 0 \<and> zoneOffset morning2025 = 0 \<and>
   AdRepository_GetByDateRange (AdRepository_Store Map.empty [sampleAdC]) noon2025 morning2025
     = []"
proof -
  have k: "dateKey (ad_Date sampleAdC) = 739253"
    by (simp add: sampleAdC_def dateKey_def AddDate_def day2025_def utcDay_def nsPerDay_def)
  have "AdRepository_GetByDateRange (AdRepository_Store Map.empty [sampleAdC])
          noon2025 morning2025 = []"
    by (simp add: AdRepository_GetByDateRange_def scanDays_concat daysVisited_sample
        lookupDay_appendAt lookupDay_empty k)
  moreover have "instant noon2025 \<le> instant (ad_Date sampleAdC)"
    "instant (ad_Date sampleAdC) \<le> instant morning2025"
    "zoneOffset noon2025 = 0" "zoneOffset (ad_Date sampleAdC) = 0" "zoneOffset morning2025 = 0"
    by (simp_all add: sampleAdC_def noon2025_def morning2025_def AddDate_def day2025_def
        utcDay_def nsPerDay_def)
  ultimately show ?thesis by simp
qed

text \<open>
  The round trip holds when the bounds and the dates of the records are times of one
  location and the time of day of \<open>from\<close> is not after the time of day of \<open>to\<close>, as when
  both are midnight: then the loop reaches the day of \<open>to\<close>.
\<close>

lemma range_scan_roundtrip_aligned:
  assumes al: "(instant from + zoneOffset from) mod nsPerDay
                 \<le> (instant to + zoneOffset to) mod nsPerDay"
    and zt: "zoneOffset to = zoneOffset from"
    and za: "\<forall>ad\<in>set ads. zoneOffset (ad_Date ad) = zoneOffset from"
    and cover: "\<forall>ad\<in>set ads. instant from \<le> instant (ad_Date ad) \<and>
                   instant (ad_Date ad) \<le> instant to"
  shows "mset (AdRepository_GetByDateRange (AdRepository_Store Map.empty ads) from to) = mset ads"
proof -
  have v: "dateKey (ad_Date ad) \<in> set (daysVisited from to)" if "ad \<in> set ads" for ad
  proof -
    let ?k = "dateKey (ad_Date ad)"
    let ?z = "zoneOffset from"
    from that cover have b: "instant from \<le> instant (ad_Date ad)"
      "instant (ad_Date ad) \<le> instant to" by auto
    from that za have z: "zoneOffset (ad_Date ad) = ?z" by auto
    have k: "dateKey from \<le> ?k" "?k \<le> dateKey to"
      using b z zt by (simp_all add: dateKey_mono)
    have f: "instant from + ?z = dateKey from * nsPerDay + (instant from + ?z) mod nsPerDay"
      and t: "instant to + ?z = dateKey to * nsPerDay + (instant to + ?z) mod nsPerDay"
      using zt by (simp_all add: dateKey_def)
    have "instant (AddDate from (?k - dateKey from)) + ?z =
            (instant from + ?z) + (?k - dateKey from) * nsPerDay"
      by (simp add: AddDate_def)
    also have "\<dots> = ?k * nsPerDay + (instant from + ?z) mod nsPerDay"
      by (subst f) (simp add: algebra_simps)
    also have "\<dots> \<le> dateKey to * nsPerDay + (instant to + ?z) mod nsPerDay"
      using k(2) al zt nsPerDay_pos by (simp add: add_mono mult_right_mono)
    also have "\<dots> = instant to + ?z" using t by simp
    finally have "\<not> After (AddDate from (?k - dateKey from)) to"
      by (simp add: After_def)
    then show ?thesis using k(1) by (simp add: daysVisited_set)
  qed
  then have "filter (\<lambda>ad. dateKey (ad_Date ad) \<in> set (daysVisited from to)) ads = ads"
    by (simp add: filter_id_conv)
  then show ?thesis by (simp only: scan_AdRepository_Store)
qed

section \<open>Pagination without overflow\<close>

lemma sint_sum_no_overflow:
  fixes a b :: go_int
  assumes "0 \<le> sint a" and "0 \<le> sint b" and "sint a + sint b < 2 ^ 63"
  shows "sint (a + b) = sint a + sint b"
proof -
  have "sint (a + b) = signed_take_bit (LENGTH(64) - 1) (sint a + sint b)"
    by (rule sint_word_ariths)
  also have "\<dots> = sint a + sint b"
    using assms by (intro signed_take_bit_int_eq_self) simp_all
  finally show ?thesis .
qed

lemma effective_bounds: "0 \<le> sint (effectiveOffset f)" "0 < sint (effectiveLimit f)"
  by (simp_all add: effectiveOffset_def effectiveLimit_def)

lemma take_drop_clamped:
  fixes xs :: "'a list" and offs lim :: int
  assumes "0 \<le> offs" and "0 < lim"
  shows "take (nat (min (int (length xs)) (offs + lim) - min (int (length xs)) offs))
           (drop (nat (min (int (length xs)) offs)) xs)
         = take (nat lim) (drop (nat offs) xs)"
proof (cases "int (length xs) \<le> offs")
  case True
  then have "length xs \<le> nat offs" by simp
  with True assms show ?thesis by (simp add: min_def)
next
  case False
  then have o: "min (int (length xs)) offs = offs" by simp
  show ?thesis
  proof (cases "int (length xs) \<le> offs + lim")
    case True
    then have "min (int (length xs)) (offs + lim) = int (length xs)" by simp
    moreover have "length (drop (nat offs) xs) \<le> nat lim"
      using True assms by simp
    moreover have "length (drop (nat offs) xs) \<le> nat (int (length xs) - offs)"
      using assms by simp
    ultimately show ?thesis by (simp add: o)
  next
    case False
    then show ?thesis using assms by (simp add: o min_def)
  qed
qed

text \<open>
  Without overflow of \<open>offset + limit\<close> the query paginates as the specification says: the
  matching records are sorted by the instants of their dates, the page is the slice from
  \<open>offset\<close> of at most \<open>limit\<close> records, and \<open>hasMore\<close> holds exactly when
  \<open>offset + limit < total\<close>.
\<close>

lemma GetByFilter_pagination:
  assumes "sint (effectiveOffset f) + sint (effectiveLimit f) < 2 ^ 63"
  shows "\<exists>r. GetByFilter now1 now2 data f = Inr r \<and>
    sorted (map (\<lambda>m. instant (bm_Date m)) (sortedMatches now1 now2 data f)) \<and>
    resp_Total r = int (length (sortedMatches now1 now2 data f)) \<and>
    resp_Data r = take (nat (sint (effectiveLimit f)))
                    (drop (nat (sint (effectiveOffset f))) (sortedMatches now1 now2 data f)) \<and>
    length (resp_Data r) \<le> nat (sint (effectiveLimit f)) \<and>
    (resp_HasMore r \<longleftrightarrow> sint (effectiveOffset f) + sint (effectiveLimit f) < resp_Total r)"
proof -
  let ?o = "sint (effectiveOffset f)" and ?l = "sint (effectiveLimit f)"
  have b: "0 \<le> ?o" "0 < ?l" by (rule effective_bounds)+
  have s: "sint (effectiveOffset f + effectiveLimit f) = ?o + ?l"
    using b assms by (intro sint_sum_no_overflow) simp_all
  have "sorted (map (\<lambda>m. instant (bm_Date m)) (sortedMatches now1 now2 data f))"
    by (simp add: sortedMatches_def)
  then show ?thesis
    using b by (simp add: GetByFilter_eq Let_def s take_drop_clamped min_less_iff_disj)
qed

end
